theory Spec2Isabelle
  imports Complex_Main "HOL-Library.Word"
begin

unbundle bit_operations_syntax

section \<open>Bytes, little-endian fields and Go strings\<close>

type_synonym byte = "8 word"
type_synonym u16 = "16 word"
type_synonym u32 = "32 word"

text \<open>
  The error kinds of \<^verbatim>\<open>errors.go\<close>. \<open>Truncated\<close> and \<open>Decompression\<close> carry the
  offset the Go constructors are given. \<open>Panic\<close> is a Go run-time panic (a slice
  expression out of range); the parser never recovers from one.
\<close>

datatype error =
    InvalidHeader
  | Truncated nat
  | Decompression nat
  | UnsupportedVersion
  | Unknown
  | Panic

text \<open>
  \<^verbatim>\<open>binary.LittleEndian.Uint16(data[offset:])\<close> and \<^verbatim>\<open>Uint32\<close>. Every call in the
  source stands behind a length check that keeps the bytes read inside \<open>data\<close>.
\<close>

definition u16le :: "byte list \<Rightarrow> nat \<Rightarrow> u16" where
  "u16le data off = ucast (data ! off) OR push_bit 8 (ucast (data ! (off + 1)))"

definition u32le :: "byte list \<Rightarrow> nat \<Rightarrow> u32" where
  "u32le data off =
     ucast (data ! off) OR push_bit 8 (ucast (data ! (off + 1)))
       OR push_bit 16 (ucast (data ! (off + 2))) OR push_bit 24 (ucast (data ! (off + 3)))"

text \<open>A Go string is a byte sequence; \<^verbatim>\<open>string(data[a:b])\<close> copies the bytes.\<close>

definition gostring :: "byte list \<Rightarrow> string" where
  "gostring bs = map (\<lambda>b. char_of (unat b)) bs"

definition gobytes :: "string \<Rightarrow> byte list" where
  "gobytes s = map (\<lambda>c. of_nat (of_char c)) s"

text \<open>The \<^verbatim>\<open>%d\<close> verb of \<^verbatim>\<open>fmt.Sprintf\<close> on an unsigned value.\<close>

definition digit :: "nat \<Rightarrow> char" where
  "digit d = char_of (48 + d)"

function showNat :: "nat \<Rightarrow> string" where
  "showNat n = (if n < 10 then [digit n] else showNat (n div 10) @ [digit (n mod 10)])"
  by pat_completeness auto
termination
  by (relation "measure id") auto

declare showNat.simps [simp del]

text \<open>
  The scan \<^verbatim>\<open>for offset < len(data) && data[offset] != 0 { offset++ }\<close> that reads a
  null-terminated run: the offset where it stops.
\<close>

function scanNul :: "byte list \<Rightarrow> nat \<Rightarrow> nat" where
  "scanNul data offset =
     (if offset < length data \<and> data ! offset \<noteq> 0 then scanNul data (offset + 1) else offset)"
  by pat_completeness auto
termination
  by (relation "measure (\<lambda>(data, offset). length data - offset)") auto

declare scanNul.simps [simp del]

lemma scanNul_ge: "offset \<le> scanNul data offset"
proof (induction data offset rule: scanNul.induct)
  case (1 data offset)
  then show ?case
    by (subst scanNul.simps) (auto dest: Suc_leD)
qed

text \<open>
  A slice expression \<^verbatim>\<open>data[lo:hi]\<close>. Go checks \<open>lo \<le> hi \<le> cap(data)\<close>, not
  \<open>len(data)\<close>: \<open>spare\<close> is what the backing array holds between the length and the
  capacity of \<open>data\<close>, so a slice that runs past the length reads into it, and one that
  runs past the capacity panics.
\<close>

definition goslice :: "byte list \<Rightarrow> byte list \<Rightarrow> nat \<Rightarrow> nat \<Rightarrow> error + byte list" where
  "goslice data spare lo hi =
     (if lo \<le> hi \<and> hi \<le> length data + length spare
      then Inr (take (hi - lo) (drop lo (data @ spare)))
      else Inl Panic)"

section \<open>Encoded strings (\<^verbatim>\<open>encoded.go\<close>)\<close>

text \<open>
  The inner loop of \<^verbatim>\<open>decodeEncodedString\<close> over the seven data bytes that follow
  a control byte. The flag of the result says that the loop met a NUL data byte and
  the function returned from inside it.
\<close>

function decodeGroup :: "byte list \<Rightarrow> nat \<Rightarrow> byte \<Rightarrow> nat \<Rightarrow> byte list \<Rightarrow> bool \<times> byte list \<times> nat" where
  "decodeGroup data pos control bitno result =
     (if bitno < 7 then
        (if pos \<ge> length data then (False, result, pos)
         else
           (let b = data ! pos; pos' = pos + 1 in
            if b = 0 then (True, result @ [0], pos')
            else if control AND push_bit (bitno + 1) 1 = 0
              then decodeGroup data pos' control (bitno + 1) (result @ [b - 1])
              else decodeGroup data pos' control (bitno + 1) (result @ [b])))
      else (False, result, pos))"
  by pat_completeness auto
termination
  by (relation "measure (\<lambda>(data, pos, control, bitno, result). 7 - bitno)") auto

declare decodeGroup.simps [simp del]

lemma decodeGroup_pos: "pos \<le> snd (snd (decodeGroup data pos control bitno result))"
proof (induction data pos control bitno result rule: decodeGroup.induct)
  case (1 data pos control bitno result)
  show ?case
  proof (cases "bitno < 7 \<and> pos < length data \<and> data ! pos \<noteq> 0")
    case True
    then show ?thesis
      using "1.IH"(1)[of "data ! pos" "pos + 1"] "1.IH"(2)[of "data ! pos" "pos + 1"]
      by (subst decodeGroup.simps) (auto simp: Let_def dest: Suc_leD)
  next
    case False
    then show ?thesis
      by (subst decodeGroup.simps) (auto simp: Let_def)
  qed
qed

function decodeLoop :: "byte list \<Rightarrow> nat \<Rightarrow> byte list \<Rightarrow> byte list \<times> nat" where
  "decodeLoop data pos result =
     (if pos < length data then
        (let control = data ! pos; pos1 = pos + 1 in
         if control = 0 then (result, pos1)
         else
           (case decodeGroup data pos1 control 0 result of
              (True, r, p) \<Rightarrow> (r, p)
            | (False, r, p) \<Rightarrow> decodeLoop data p r))
      else (result, pos))"
  by pat_completeness auto
termination
  apply (relation "measure (\<lambda>(data, pos, result). length data - pos)")
   apply simp
  subgoal for data pos result x xa xb y xc ya
    using decodeGroup_pos [of xa data x 0 result] by (cases "decodeGroup data xa x 0 result") auto
  done

declare decodeLoop.simps [simp del]

definition decodeEncodedString :: "byte list \<Rightarrow> nat \<Rightarrow> byte list \<times> nat" where
  "decodeEncodedString data offset = decodeLoop data offset []"

section \<open>The data model (\<^verbatim>\<open>models.go\<close>)\<close>

text \<open>
  \<open>Race\<close>, \<open>SlotStatus\<close> and \<open>LeaveResult\<close> are \<^verbatim>\<open>uint8\<close> types with named
  constants; a value need not be one of the constants.
\<close>

definition RaceHuman :: byte where "RaceHuman = 0x01"
definition RaceOrc :: byte where "RaceOrc = 0x02"
definition RaceNightElf :: byte where "RaceNightElf = 0x04"
definition RaceUndead :: byte where "RaceUndead = 0x08"
definition RaceRandom :: byte where "RaceRandom = 0x20"
definition RaceSelectable :: byte where "RaceSelectable = 0x40"
definition RaceUnknown :: byte where "RaceUnknown = 0xFF"

definition RaceFromFlags :: "byte \<Rightarrow> byte" where
  "RaceFromFlags flags =
     (if flags AND 0x01 \<noteq> 0 then RaceHuman
      else if flags AND 0x02 \<noteq> 0 then RaceOrc
      else if flags AND 0x04 \<noteq> 0 then RaceNightElf
      else if flags AND 0x08 \<noteq> 0 then RaceUndead
      else if flags AND 0x20 \<noteq> 0 then RaceRandom
      else if flags AND 0x40 \<noteq> 0 then RaceSelectable
      else RaceUnknown)"

definition SlotEmpty :: byte where "SlotEmpty = 0x00"
definition SlotClosed :: byte where "SlotClosed = 0x01"
definition SlotUsed :: byte where "SlotUsed = 0x02"

record ReplayHeader =
  Magic :: "byte list"
  HeaderSize :: u32
  CompressedSize :: u32
  HeaderVersion :: u32
  DecompressedSize :: u32
  NumCompressedBlocks :: u32
  GameIdentifier :: string
  Version :: u32
  BuildNumber :: u16
  Flags :: u16
  DurationMs :: u32
  CRC32 :: u32
  RawHeader :: "byte list"

text \<open>
  \<open>APM\<close> is a \<^verbatim>\<open>float64\<close> in the source; here it is a real number, and the one
  division that computes it is exact. \<open>LeaveTimeMs\<close> is a pointer in the source, see
  \<open>parseGameData\<close>.
\<close>

record PlayerInfo =
  ID :: byte
  Name :: string
  Race :: byte
  Team :: byte
  Color :: byte
  Handicap :: byte
  IsHost :: bool
  IsComputer :: bool
  IsObserver :: bool
  SlotStatus :: byte
  RuntimeMs :: u32
  ActionCount :: int
  APM :: real
  LeaveResult :: "byte option"
  LeaveTimeMs :: "u32 option"

text \<open>A \<^verbatim>\<open>PlayerInfo\<close> literal that names no field: every field has Go's zero value.\<close>

definition zeroPlayer :: PlayerInfo where
  "zeroPlayer =
     \<lparr>ID = 0, Name = [], Race = 0, Team = 0, Color = 0, Handicap = 0, IsHost = False,
      IsComputer = False, IsObserver = False, SlotStatus = 0, RuntimeMs = 0, ActionCount = 0,
      APM = 0, LeaveResult = None, LeaveTimeMs = None\<rparr>"

record GameSettings =
  Speed :: byte
  Visibility :: byte
  Observers :: byte
  TeamsTogether :: bool
  LockTeams :: bool
  FullSharedControl :: bool
  RandomHero :: bool
  RandomRaces :: bool
  Referees :: bool
  MapChecksum :: "byte list"

definition zeroSettings :: GameSettings where
  "zeroSettings =
     \<lparr>Speed = 0, Visibility = 0, Observers = 0, TeamsTogether = False, LockTeams = False,
      FullSharedControl = False, RandomHero = False, RandomRaces = False, Referees = False,
      MapChecksum = []\<rparr>"

record ChatMessage =
  chatTimestampMs :: u32
  chatPlayerID :: byte
  PlayerName :: string
  Message :: string
  Mode :: u32
  IsStartup :: bool

text \<open>
  The values an action's \<^verbatim>\<open>Data\<close> map holds. A \<^verbatim>\<open>float32\<close> made by
  \<^verbatim>\<open>math.Float32frombits\<close> is kept as its bits.
\<close>

datatype DataValue =
    U8 byte
  | U16 u16
  | U32 u32
  | F32 u32
  | Bytes "byte list"
  | Str string
  | U32s "u32 list"

record GameAction =
  TimestampMs :: u32
  PlayerID :: byte
  ActionType :: byte
  ActionName :: string
  Payload :: "byte list"
  Data :: "string \<rightharpoonup> DataValue"

record SlotRecord =
  slotPlayerID :: byte
  DownloadPercent :: byte
  slotStatus :: byte
  slotIsComputer :: bool
  slotTeam :: byte
  slotColor :: byte
  RaceFlags :: byte
  AIStrength :: byte
  slotHandicap :: byte

record W3GReplay =
  Header :: ReplayHeader
  GameName :: string
  MapName :: string
  MapPath :: string
  HostName :: string
  Settings :: GameSettings
  Players :: "PlayerInfo list"
  ChatMessages :: "ChatMessage list"
  Actions :: "GameAction list"
  RawDecompressed :: "byte list"

section \<open>The header decoder (\<^verbatim>\<open>header.go\<close>)\<close>

definition MagicString :: "byte list" where
  "MagicString = gobytes ''Warcraft III recorded game'' @ [0x1A, 0x00]"

definition BaseHeaderSize :: nat where "BaseHeaderSize = 0x30"
definition SubHeaderV0Size :: nat where "SubHeaderV0Size = 0x10"
definition SubHeaderV1Size :: nat where "SubHeaderV1Size = 0x14"

definition GameIDClassic :: string where "GameIDClassic = ''WAR3''"
definition GameIDTFT :: string where "GameIDTFT = ''W3XP''"

definition ReforgedVersionThreshold :: u32 where "ReforgedVersionThreshold = 29"

text \<open>
  \<^verbatim>\<open>io.ReadFull\<close> on a reader that holds the bytes \<open>r\<close>: the buffer of \<open>n\<close> bytes
  and the reader behind it, or \<open>None\<close> when fewer than \<open>n\<close> bytes are left.
\<close>

definition readFull :: "nat \<Rightarrow> byte list \<Rightarrow> (byte list \<times> byte list) option" where
  "readFull n r = (if length r < n then None else Some (take n r, drop n r))"

text \<open>\<open>parseHeader\<close> returns the header, the raw header and the reader behind the header.\<close>

definition parseHeader :: "byte list \<Rightarrow> error + (ReplayHeader \<times> byte list \<times> byte list)" where
  "parseHeader r =
     (case readFull BaseHeaderSize r of
        None \<Rightarrow> Inl (Truncated BaseHeaderSize)
      | Some (baseHeader, r1) \<Rightarrow>
          (let magic = take 28 baseHeader in
           if magic \<noteq> MagicString then Inl InvalidHeader
           else
             (let headerSize = u32le baseHeader 0x1C;
                  compressedSize = u32le baseHeader 0x20;
                  headerVersion = u32le baseHeader 0x24;
                  decompressedSize = u32le baseHeader 0x28;
                  numBlocks = u32le baseHeader 0x2C
              in
              if headerVersion \<noteq> 0 \<and> headerVersion \<noteq> 1 then Inl InvalidHeader
              else
                (let subHeaderSize = (if headerVersion = 0 then SubHeaderV0Size else SubHeaderV1Size) in
                 case readFull subHeaderSize r1 of
                   None \<Rightarrow> Inl (Truncated BaseHeaderSize)
                 | Some (subHeader, r2) \<Rightarrow>
                     (let header =
                        \<lparr>Magic = magic, HeaderSize = headerSize, CompressedSize = compressedSize,
                         HeaderVersion = headerVersion, DecompressedSize = decompressedSize,
                         NumCompressedBlocks = numBlocks, GameIdentifier = [], Version = 0,
                         BuildNumber = 0, Flags = 0, DurationMs = 0, CRC32 = 0, RawHeader = []\<rparr>;
                          header' =
                            (if headerVersion = 0 then
                               header\<lparr>Version := ucast (u16le subHeader 0x02),
                                      BuildNumber := u16le subHeader 0x04,
                                      Flags := u16le subHeader 0x06,
                                      DurationMs := u32le subHeader 0x08,
                                      CRC32 := u32le subHeader 0x0C,
                                      GameIdentifier := GameIDClassic\<rparr>
                             else
                               header\<lparr>GameIdentifier := gostring (take 4 subHeader),
                                      Version := u32le subHeader 0x04,
                                      BuildNumber := u16le subHeader 0x08,
                                      Flags := u16le subHeader 0x0A,
                                      DurationMs := u32le subHeader 0x0C,
                                      CRC32 := u32le subHeader 0x10\<rparr>);
                          rawHeader = baseHeader @ subHeader
                      in Inr (header'\<lparr>RawHeader := rawHeader\<rparr>, rawHeader, r2))))))"


section \<open>The block decompressor (\<^verbatim>\<open>decompressor.go\<close>)\<close>



section \<open>The chat decoder (\<^verbatim>\<open>chat.go\<close>)\<close>

definition ChatFlagStartup :: byte where "ChatFlagStartup = 0x10"
definition ChatFlagNormal :: byte where "ChatFlagNormal = 0x20"

text \<open>Reading a \<^verbatim>\<open>map[uint8]string\<close>: a missing key reads as the empty string.\<close>

definition lookupName :: "(byte \<rightharpoonup> string) \<Rightarrow> byte \<Rightarrow> string" where
  "lookupName playerNames k = (case playerNames k of None \<Rightarrow> [] | Some v \<Rightarrow> v)"

definition parseChatMessage ::
  "byte list \<Rightarrow> nat \<Rightarrow> (byte \<rightharpoonup> string) \<Rightarrow> ChatMessage option \<times> nat" where
  "parseChatMessage data offset0 playerNames =
     (if offset0 + 4 > length data then (None, offset0)
      else
        (let playerID = data ! offset0;
             offset1 = offset0 + 1;
             offset2 = offset1 + 2;
             flags = data ! offset2;
             offset3 = offset2 + 1;
             isStartup = (flags = ChatFlagStartup);
             (mode, offset4) =
               (if flags = ChatFlagStartup then (0, offset3)
                else if flags = ChatFlagNormal then
                  (if offset3 + 4 \<le> length data then (u32le data offset3, offset3 + 4)
                   else (0, offset3))
                else (0, offset3));
             msgStart = offset4;
             offset5 = scanNul data offset4;
             message = gostring (take (offset5 - msgStart) (drop msgStart data));
             offset6 = offset5 + 1;
             playerName =
               (if lookupName playerNames playerID = [] then ''Player '' @ showNat (unat playerID)
                else lookupName playerNames playerID)
         in (Some \<lparr>chatTimestampMs = 0, chatPlayerID = playerID, PlayerName = playerName,
                    Message = message, Mode = mode, IsStartup = isStartup\<rparr>, offset6)))"

section \<open>Player records, slots and the game-start record (\<^verbatim>\<open>players.go\<close>)\<close>

definition RecordHost :: byte where "RecordHost = 0x00"
definition RecordAdditionalPlayer :: byte where "RecordAdditionalPlayer = 0x16"
definition BlockGameStart :: byte where "BlockGameStart = 0x19"
definition ObserverTeamClassic :: byte where "ObserverTeamClassic = 12"
definition ObserverTeamReforged :: byte where "ObserverTeamReforged = 24"

definition parsePlayerRecord :: "byte list \<Rightarrow> nat \<Rightarrow> bool \<Rightarrow> PlayerInfo option \<times> nat" where
  "parsePlayerRecord data offset0 isHost =
     (if offset0 \<ge> length data then (None, offset0)
      else
        (let recordID = data ! offset0;
             offset1 = offset0 + 1;
             expectedID = (if isHost then RecordHost else RecordAdditionalPlayer)
         in
         if recordID \<noteq> expectedID then (None, offset1 - 1)
         else if offset1 \<ge> length data then (None, offset1)
         else
           (let playerID = data ! offset1;
                offset2 = offset1 + 1;
                nameStart = offset2;
                offset3 = scanNul data offset2;
                name = gostring (take (offset3 - nameStart) (drop nameStart data));
                offset4 = offset3 + 1
            in
            if offset4 \<ge> length data then
              (Some (zeroPlayer\<lparr>ID := playerID, Name := name, IsHost := isHost, Handicap := 100\<rparr>),
               offset4)
            else
              (let extraSize = data ! offset4;
                   offset5 = offset4 + 1;
                   (runtimeMs, race, offset6) =
                     (if extraSize = 0x01 then (0, RaceUnknown, offset5 + 1)
                      else if extraSize = 0x08 then
                        (if offset5 + 8 \<le> length data then
                           (u32le data offset5,
                            RaceFromFlags (ucast (u32le data (offset5 + 4))),
                            offset5 + 8)
                         else (0, RaceUnknown, offset5))
                      else (0, RaceUnknown, offset5 + unat extraSize))
               in
               (Some (zeroPlayer\<lparr>ID := playerID, Name := name, Race := race, IsHost := isHost,
                                  RuntimeMs := runtimeMs, Handicap := 100\<rparr>),
                offset6)))))"

definition parseSlotRecord :: "byte list \<Rightarrow> nat \<Rightarrow> u32 \<Rightarrow> SlotRecord option \<times> nat" where
  "parseSlotRecord data offset version =
     (let slotSize = (if version < 3 then 7 else if version < 7 then 8 else (9::nat)) in
      if offset + slotSize > length data then (None, offset)
      else
        (let slot =
               \<lparr>slotPlayerID = data ! offset,
                DownloadPercent = data ! (offset + 1),
                slotStatus = data ! (offset + 2),
                slotIsComputer = (data ! (offset + 3) = 0x01),
                slotTeam = data ! (offset + 4),
                slotColor = data ! (offset + 5),
                RaceFlags = data ! (offset + 6),
                AIStrength = 0,
                slotHandicap = 100\<rparr>;
             slot1 = (if slotSize \<ge> 8 then slot\<lparr>AIStrength := data ! (offset + 7)\<rparr> else slot);
             slot2 = (if slotSize \<ge> 9 then slot1\<lparr>slotHandicap := data ! (offset + 8)\<rparr> else slot1)
         in (Some slot2, offset + slotSize)))"

text \<open>The loop \<^verbatim>\<open>for i := uint8(0); i < numSlots; i++\<close> of \<open>parseGameStartRecord\<close>.\<close>

fun parseSlots :: "byte list \<Rightarrow> u32 \<Rightarrow> nat \<Rightarrow> nat \<Rightarrow> SlotRecord list \<Rightarrow> SlotRecord list \<times> nat" where
  "parseSlots data version 0 offset slots = (slots, offset)"
| "parseSlots data version (Suc k) offset slots =
     (case parseSlotRecord data offset version of
        (Some slot, newOffset) \<Rightarrow> parseSlots data version k newOffset (slots @ [slot])
      | (None, newOffset) \<Rightarrow> parseSlots data version k newOffset slots)"

definition parseGameStartRecord ::
  "byte list \<Rightarrow> nat \<Rightarrow> u32 \<Rightarrow> SlotRecord list \<times> u32 \<times> byte \<times> nat" where
  "parseGameStartRecord data offset0 version =
     (if offset0 \<ge> length data \<or> data ! offset0 \<noteq> BlockGameStart then ([], 0, 0, offset0)
      else
        (let offset1 = offset0 + 1 in
         if offset1 + 2 > length data then ([], 0, 0, offset1)
         else
           (let offset2 = offset1 + 2 in
            if offset2 \<ge> length data then ([], 0, 0, offset2)
            else
              (let numSlots = data ! offset2;
                   offset3 = offset2 + 1;
                   (slots, offset4) = parseSlots data version (unat numSlots) offset3 [];
                   (randomSeed, offset5) =
                     (if offset4 + 4 \<le> length data then (u32le data offset4, offset4 + 4)
                      else (0, offset4));
                   (selectMode, offset6) =
                     (if offset5 < length data then (data ! offset5, offset5 + 1) else (0, offset5));
                   offset7 = (if offset6 < length data then offset6 + 1 else offset6)
               in (slots, randomSeed, selectMode, offset7)))))"

definition isValidGameStartRecord :: "byte list \<Rightarrow> nat \<Rightarrow> bool" where
  "isValidGameStartRecord data offset =
     (if offset + 4 > length data \<or> data ! offset \<noteq> BlockGameStart then False
      else
        (let numBytes = u16le data (offset + 1) in
         if numBytes < 10 \<or> numBytes > 500 then False
         else (let numSlots = data ! (offset + 3) in numSlots \<ge> 2 \<and> numSlots \<le> 24)))"

text \<open>
  \<^verbatim>\<open>playerMap[p.ID] = p\<close> over the players in order: a later player with the same ID
  replaces an earlier one. The map holds pointers; here it holds the position of the
  player in the list.
\<close>

fun buildPlayerMap :: "PlayerInfo list \<Rightarrow> nat \<Rightarrow> (byte \<rightharpoonup> nat) \<Rightarrow> (byte \<rightharpoonup> nat)" where
  "buildPlayerMap [] i playerMap = playerMap"
| "buildPlayerMap (p # ps) i playerMap = buildPlayerMap ps (i + 1) (playerMap(ID p \<mapsto> i))"

text \<open>
  The loop over the slots. \<open>players\<close> are the \<^verbatim>\<open>PlayerInfo\<close> objects that the caller's
  slice points to, updated through the pointers of \<open>playerMap\<close>; \<open>computers\<close> are the
  players that \<^verbatim>\<open>players = append(players, computer)\<close> has put behind them in the
  callee's own slice.
\<close>

fun applySlots ::
  "(byte \<rightharpoonup> nat) \<Rightarrow> byte \<Rightarrow> SlotRecord list \<Rightarrow> PlayerInfo list \<Rightarrow> PlayerInfo list \<Rightarrow>
   PlayerInfo list \<times> PlayerInfo list" where
  "applySlots playerMap observerTeam [] players computers = (players, computers)"
| "applySlots playerMap observerTeam (slot # slots) players computers =
     (if slotStatus slot \<noteq> SlotUsed then applySlots playerMap observerTeam slots players computers
      else if slotIsComputer slot then
        (let computer =
               zeroPlayer\<lparr>ID := slotPlayerID slot,
                          Name := ''Computer '' @ showNat (unat (slotPlayerID slot)),
                          IsComputer := True,
                          Team := slotTeam slot,
                          Color := slotColor slot,
                          Race := RaceFromFlags (RaceFlags slot),
                          Handicap := slotHandicap slot,
                          SlotStatus := SlotUsed\<rparr>
         in applySlots playerMap observerTeam slots players (computers @ [computer]))
      else
        (case playerMap (slotPlayerID slot) of
           Some i \<Rightarrow>
             (let player = players ! i;
                  player1 = player\<lparr>Team := slotTeam slot, Color := slotColor slot,
                                   Handicap := slotHandicap slot, SlotStatus := slotStatus slot\<rparr>;
                  player2 = (if Race player1 = RaceUnknown
                             then player1\<lparr>Race := RaceFromFlags (RaceFlags slot)\<rparr> else player1);
                  player3 = (if Team player2 = observerTeam
                             then player2\<lparr>IsObserver := True\<rparr> else player2)
              in applySlots playerMap observerTeam slots (players[i := player3]) computers)
         | None \<Rightarrow> applySlots playerMap observerTeam slots players computers))"

text \<open>
  \<open>applySlotInfoToPlayers\<close> returns nothing. The first component is what the caller's
  slice shows afterwards: the same objects, with the updates made through the pointers.
  The second is the callee's variable \<^verbatim>\<open>players\<close> at the end, which its appends have
  rebound; the caller's slice header keeps its length.
\<close>

definition applySlotInfoToPlayers ::
  "PlayerInfo list \<Rightarrow> SlotRecord list \<Rightarrow> u32 \<Rightarrow> PlayerInfo list \<times> PlayerInfo list" where
  "applySlotInfoToPlayers players slots version =
     (let playerMap = buildPlayerMap players 0 Map.empty;
          observerTeam = (if version \<ge> ReforgedVersionThreshold then ObserverTeamReforged
                          else ObserverTeamClassic);
          (players', computers) = applySlots playerMap observerTeam slots players []
      in (players', players' @ computers))"

section \<open>Game settings (\<^verbatim>\<open>encoded.go\<close>)\<close>

definition isSep :: "char \<Rightarrow> bool" where
  "isSep c \<longleftrightarrow> c = CHR ''/'' \<or> c = CHR 0x5C"

definition extractMapName :: "string \<Rightarrow> string" where
  "extractMapName mapPath =
     (let mapName = rev (takeWhile (\<lambda>c. \<not> isSep c) (rev mapPath)) in
      if length mapName > 4 then
        (let ext = drop (length mapName - 4) mapName in
         if ext = ''.w3x'' \<or> ext = ''.w3m'' \<or> ext = ''.W3X'' \<or> ext = ''.W3M''
         then take (length mapName - 4) mapName else mapName)
      else mapName)"

definition parseEncodedSettings :: "byte list \<Rightarrow> GameSettings \<times> string \<times> string" where
  "parseEncodedSettings encodedData =
     (let settings = zeroSettings\<lparr>Speed := 2\<rparr> in
      if length encodedData < 13 then (settings, [], [])
      else
        (let byte1 = encodedData ! 1;
             byte3 = encodedData ! 3;
             settings1 =
               settings\<lparr>Speed := encodedData ! 0 AND 0x03,
                        Visibility := byte1 AND 0x0F,
                        Observers := drop_bit 4 byte1 AND 0x03,
                        TeamsTogether := (byte1 AND 0x40 \<noteq> 0),
                        LockTeams := (encodedData ! 2 AND 0x06 \<noteq> 0),
                        FullSharedControl := (byte3 AND 0x01 \<noteq> 0),
                        RandomHero := (byte3 AND 0x02 \<noteq> 0),
                        RandomRaces := (byte3 AND 0x04 \<noteq> 0),
                        Referees := (byte3 AND 0x40 \<noteq> 0),
                        MapChecksum := take 4 (drop 9 encodedData)\<rparr>;
             offset = (13::nat);
             offset1 = (if offset < length encodedData \<and> encodedData ! offset = 0
                        then offset + 1 else offset);
             pathStart = offset1;
             offset2 = scanNul encodedData offset1
         in
         if offset2 > pathStart then
           (let mapPath = gostring (take (offset2 - pathStart) (drop pathStart encodedData))
            in (settings1, mapPath, extractMapName mapPath))
         else (settings1, [], [])))"

section \<open>The action decoder (\<^verbatim>\<open>actions.go\<close>)\<close>

definition ActionNames :: "byte \<Rightarrow> string" where
  "ActionNames actionID =
     (case map_of
        [(0x01, ''pause''), (0x02, ''resume''), (0x03, ''set_speed''),
         (0x04, ''increase_speed''), (0x05, ''decrease_speed''), (0x06, ''save_game''),
         (0x07, ''save_finished''), (0x10, ''ability''), (0x11, ''ability_position''),
         (0x12, ''ability_object''), (0x13, ''drop_item''), (0x14, ''ability_two_positions''),
         (0x16, ''select_units''), (0x17, ''assign_group''), (0x18, ''select_group''),
         (0x19, ''select_subgroup''), (0x1A, ''pre_subselection''), (0x1B, ''sync_selection''),
         (0x1C, ''select_item''), (0x1D, ''cancel_revival''), (0x1E, ''remove_from_queue''),
         (0x50, ''ally_options''), (0x51, ''transfer_resources''), (0x60, ''trigger_command''),
         (0x61, ''escape''), (0x62, ''scenario_trigger''), (0x66, ''hero_skill_menu''),
         (0x67, ''building_menu''), (0x68, ''minimap_ping''), (0x69, ''continue_game_b''),
         (0x6A, ''continue_game_a''), (0x75, ''unknown_75'')] actionID of
        None \<Rightarrow> []
      | Some name \<Rightarrow> name)"

text \<open>The \<^verbatim>\<open>%02x\<close> verb of \<^verbatim>\<open>fmt.Sprintf\<close> on a byte.\<close>

definition hexDigit :: "nat \<Rightarrow> char" where
  "hexDigit d = (if d < 10 then char_of (48 + d) else char_of (87 + d))"

definition hex2 :: "byte \<Rightarrow> string" where
  "hex2 b = [hexDigit (unat b div 16), hexDigit (unat b mod 16)]"

text \<open>
  The loop over the units of a selection: one \<^verbatim>\<open>uint32\<close> is kept and eight bytes
  are passed for each unit, as long as eight bytes are left.
\<close>

fun readObjectIDs :: "byte list \<Rightarrow> nat \<Rightarrow> nat \<Rightarrow> u32 list \<Rightarrow> u32 list \<times> nat" where
  "readObjectIDs data 0 offset objectIDs = (objectIDs, offset)"
| "readObjectIDs data (Suc k) offset objectIDs =
     (if offset + 8 \<le> length data
      then readObjectIDs data k (offset + 8) (objectIDs @ [u32le data offset])
      else (objectIDs, offset))"

text \<open>The ability flags: one word from version 13 on, one byte before.\<close>

definition abilityFlags :: "byte list \<Rightarrow> nat \<Rightarrow> u32 \<Rightarrow> DataValue \<times> nat" where
  "abilityFlags data offset version =
     (let flagsSize = (if version < 13 then 1 else (2::nat)) in
      if flagsSize = 2 then (U16 (u16le data offset), offset + flagsSize)
      else (U16 (ucast (data ! offset)), offset + flagsSize))"

text \<open>
  The \<^verbatim>\<open>switch\<close> of \<open>parseAction\<close>, from the offset behind the opcode: the action's
  name, its data and the offset behind it, or \<open>None\<close> where the source returns
  \<^verbatim>\<open>nil\<close> for an opcode it does not know.
\<close>

definition actionBody ::
  "byte list \<Rightarrow> byte list \<Rightarrow> nat \<Rightarrow> u32 \<Rightarrow> byte \<Rightarrow> string \<Rightarrow>
   error + (string \<times> (string \<rightharpoonup> DataValue) \<times> nat) option" where
  "actionBody data spare offset version actionID actionName =
     (if actionID = 0x01 \<or> actionID = 0x02 then Inr (Some (actionName, Map.empty, offset))
      else if actionID = 0x03 then
        (if offset < length data
         then Inr (Some (actionName, [''speed'' \<mapsto> U8 (data ! offset)], offset + 1))
         else Inr (Some (actionName, Map.empty, offset)))
      else if actionID = 0x04 \<or> actionID = 0x05 then Inr (Some (actionName, Map.empty, offset))
      else if actionID = 0x06 then
        (let nameStart = offset;
             offset1 = scanNul data offset;
             filename = gostring (take (offset1 - nameStart) (drop nameStart data))
         in Inr (Some (actionName, [''filename'' \<mapsto> Str filename], offset1 + 1)))
      else if actionID = 0x07 then Inr (Some (actionName, Map.empty, offset + 4))
      else if actionID = 0x10 then
        (let actionSize = (if version < 13 then 13 else (14::nat)) in
         if offset + actionSize - 1 \<le> length data then
           (let flagsSize = (if version < 13 then 1 else (2::nat));
                (flags, offset1) = abilityFlags data offset version;
                itemID = take 4 (drop offset1 data);
                offset2 = offset1 + (actionSize - 1 - flagsSize)
            in Inr (Some (actionName,
                          [''ability_flags'' \<mapsto> flags, ''item_id'' \<mapsto> Bytes itemID], offset2)))
         else Inr (Some (actionName, Map.empty, offset)))
      else if actionID = 0x11 then
        (let actionSize = (if version < 13 then 21 else (22::nat)) in
         if offset + actionSize - 1 \<le> length data then
           (let (flags, offset1) = abilityFlags data offset version;
                itemID = take 4 (drop offset1 data);
                offset2 = offset1 + 4;
                offset3 = offset2 + 8;
                actionData = [''ability_flags'' \<mapsto> flags, ''item_id'' \<mapsto> Bytes itemID];
                actionData1 =
                  (if offset3 + 8 \<le> length data
                   then actionData(''target_x'' \<mapsto> F32 (u32le data offset3),
                                   ''target_y'' \<mapsto> F32 (u32le data (offset3 + 4)))
                   else actionData)
            in Inr (Some (actionName, actionData1, offset3 + 8)))
         else Inr (Some (actionName, Map.empty, offset)))
      else if actionID = 0x12 then
        (let actionSize = (if version < 13 then 25 else (26::nat)) in
         if offset + actionSize - 1 \<le> length data then
           (let (flags, offset1) = abilityFlags data offset version;
                itemID = take 4 (drop offset1 data);
                offset2 = offset1 + 4;
                offset3 = offset2 + 8;
                actionData = [''ability_flags'' \<mapsto> flags, ''item_id'' \<mapsto> Bytes itemID];
                actionData1 =
                  (if offset3 + 8 \<le> length data
                   then actionData(''target_x'' \<mapsto> F32 (u32le data offset3),
                                   ''target_y'' \<mapsto> F32 (u32le data (offset3 + 4)))
                   else actionData);
                offset4 = offset3 + 8;
                (actionData2, offset5) =
                  (if offset4 + 4 \<le> length data
                   then (actionData1(''object_id_1'' \<mapsto> U32 (u32le data offset4)), offset4 + 4)
                   else (actionData1, offset4));
                (actionData3, offset6) =
                  (if offset5 + 4 \<le> length data
                   then (actionData2(''object_id_2'' \<mapsto> U32 (u32le data offset5)), offset5 + 4)
                   else (actionData2, offset5))
            in Inr (Some (actionName, actionData3, offset6)))
         else Inr (Some (actionName, Map.empty, offset)))
      else if actionID = 0x13 then
        (let actionSize = (if version \<ge> 13 then 38 else (37::nat))
         in Inr (Some (actionName, Map.empty, offset + (actionSize - 1))))
      else if actionID = 0x14 then
        (let actionSize = (if version \<ge> 13 then 43 else (42::nat))
         in Inr (Some (actionName, Map.empty, offset + (actionSize - 1))))
      else if actionID = 0x16 \<or> actionID = 0x17 then
        (if offset + 3 \<le> length data then
           (let key = (if actionID = 0x16 then ''select_mode'' else ''group'');
                offset1 = offset + 1;
                unitCount = u16le data offset1;
                offset2 = offset1 + 2;
                (objectIDs, offset3) = readObjectIDs data (unat unitCount) offset2 []
            in Inr (Some (actionName,
                          [key \<mapsto> U8 (data ! offset), ''unit_count'' \<mapsto> U16 unitCount,
                           ''object_ids'' \<mapsto> U32s objectIDs], offset3)))
         else Inr (Some (actionName, Map.empty, offset)))
      else if actionID = 0x18 then
        (if offset + 2 \<le> length data
         then Inr (Some (actionName, [''group'' \<mapsto> U8 (data ! offset)], offset + 2))
         else Inr (Some (actionName, Map.empty, offset)))
      else if actionID = 0x19 then
        (if version \<ge> 14 then Inr (Some (actionName, Map.empty, offset + 12))
         else Inr (Some (actionName, Map.empty, offset + 1)))
      else if actionID = 0x1A then Inr (Some (actionName, Map.empty, offset))
      else if actionID = 0x1B then
        (if offset + 9 \<le> length data then
           Inr (Some (actionName,
                      [''flag'' \<mapsto> U8 (data ! offset),
                       ''object_id_1'' \<mapsto> U32 (u32le data (offset + 1)),
                       ''object_id_2'' \<mapsto> U32 (u32le data (offset + 5))], offset + 9))
         else Inr (Some (actionName, Map.empty, offset + 9)))
      else if actionID = 0x1C then Inr (Some (actionName, Map.empty, offset + 9))
      else if actionID = 0x1D then Inr (Some (actionName, Map.empty, offset + 8))
      else if actionID = 0x1E then
        (if offset + 5 \<le> length data then
           Inr (Some (actionName,
                      [''slot'' \<mapsto> U8 (data ! offset),
                       ''item_id'' \<mapsto> Bytes (take 4 (drop (offset + 1) data))], offset + 5))
         else Inr (Some (actionName, Map.empty, offset)))
      else if actionID = 0x50 then
        (if offset + 5 \<le> length data then
           Inr (Some (actionName,
                      [''player_slot'' \<mapsto> U8 (data ! offset),
                       ''flags'' \<mapsto> U32 (u32le data (offset + 1))], offset + 5))
         else Inr (Some (actionName, Map.empty, offset)))
      else if actionID = 0x51 then
        (if offset + 9 \<le> length data then
           Inr (Some (actionName,
                      [''player_slot'' \<mapsto> U8 (data ! offset),
                       ''gold'' \<mapsto> U32 (u32le data (offset + 1)),
                       ''lumber'' \<mapsto> U32 (u32le data (offset + 5))], offset + 9))
         else Inr (Some (actionName, Map.empty, offset)))
      else if actionID = 0x60 then
        (let offset1 = offset + 8;
             strStart = offset1;
             offset2 = scanNul data offset1
         in case goslice data spare strStart offset2 of
              Inl e \<Rightarrow> Inl e
            | Inr command \<Rightarrow>
                Inr (Some (actionName, [''command'' \<mapsto> Str (gostring command)], offset2 + 1)))
      else if actionID = 0x61 then Inr (Some (actionName, Map.empty, offset))
      else if actionID = 0x62 then Inr (Some (actionName, Map.empty, offset + 12))
      else if actionID = 0x66 \<or> actionID = 0x67 then Inr (Some (actionName, Map.empty, offset))
      else if actionID = 0x68 then
        (if offset + 12 \<le> length data then
           Inr (Some (actionName,
                      [''x'' \<mapsto> F32 (u32le data offset), ''y'' \<mapsto> F32 (u32le data (offset + 4))],
                      offset + 12))
         else Inr (Some (actionName, Map.empty, offset)))
      else if actionID = 0x69 \<or> actionID = 0x6A then Inr (Some (actionName, Map.empty, offset + 16))
      else if actionID = 0x75 then Inr (Some (actionName, Map.empty, offset + 1))
      else if actionID \<ge> 0x20 \<and> actionID \<le> 0x32 then
        (if offset + 5 \<le> length data then Inr (Some (''cheat'', Map.empty, offset + 5))
         else Inr (Some (''cheat'', Map.empty, offset)))
      else Inr None)"

text \<open>
  \<open>parseAction\<close>: the decoded action and the offset behind it. The payload is the slice
  \<^verbatim>\<open>data[startOffset:offset]\<close>; several branches move the offset without a length
  check, so this slice can run past the length of \<open>data\<close>.
\<close>

definition parseAction ::
  "byte list \<Rightarrow> byte list \<Rightarrow> nat \<Rightarrow> u32 \<Rightarrow> error + (GameAction option \<times> nat)" where
  "parseAction data spare offset0 version =
     (if offset0 \<ge> length data then Inr (None, offset0)
      else
        (let actionID = data ! offset0;
             startOffset = offset0;
             offset = offset0 + 1;
             actionName = (if ActionNames actionID = [] then ''unknown_'' @ hex2 actionID
                           else ActionNames actionID)
         in case actionBody data spare offset version actionID actionName of
              Inl e \<Rightarrow> Inl e
            | Inr None \<Rightarrow> Inr (None, offset)
            | Inr (Some (name, actionData, offset')) \<Rightarrow>
                (case goslice data spare startOffset offset' of
                   Inl e \<Rightarrow> Inl e
                 | Inr payload \<Rightarrow>
                     Inr (Some \<lparr>TimestampMs = 0, PlayerID = 0, ActionType = actionID,
                                ActionName = name, Payload = payload, Data = actionData\<rparr>,
                          offset'))))"

lemma readObjectIDs_ge: "offset \<le> snd (readObjectIDs data k offset objectIDs)"
proof (induction k arbitrary: offset objectIDs)
  case 0
  show ?case by simp
next
  case (Suc k)
  show ?case
    using Suc [of "offset + 8" "objectIDs @ [u32le data offset]"] by simp
qed

lemma actionBody_ge:
  assumes "actionBody data spare offset version actionID actionName = Inr (Some (name, actionData, offset'))"
  shows "offset \<le> offset'"
proof -
  have a: "offset \<le> scanNul data offset" "offset + 8 \<le> scanNul data (offset + 8)"
    by (rule scanNul_ge)+
  have b: "offset + 3 \<le> snd (readObjectIDs data (unat (u16le data (offset + 1))) (offset + 1 + 2) [])"
    using readObjectIDs_ge [of "offset + 1 + 2" data "unat (u16le data (offset + 1))" "[]"] by simp
  show ?thesis
    using assms a b
    by (simp add: actionBody_def abilityFlags_def Let_def goslice_def
             split: if_splits prod.splits sum.splits)
qed

lemma parseAction_advances:
  assumes "parseAction data spare offset version = Inr (Some action, newOffset)"
  shows "offset < newOffset"
proof -
  from assms have lt: "offset < length data"
    by (simp add: parseAction_def split: if_splits)
  define nm where "nm = (if ActionNames (data ! offset) = [] then ''unknown_'' @ hex2 (data ! offset)
                           else ActionNames (data ! offset))"
  from assms lt obtain name actionData where
    "actionBody data spare (offset + 1) version (data ! offset) nm = Inr (Some (name, actionData, newOffset))"
    unfolding parseAction_def Let_def nm_def [symmetric]
    by (simp split: sum.splits option.splits prod.splits)
  from actionBody_ge [OF this] show ?thesis by simp
qed

section \<open>Command frames (\<^verbatim>\<open>actions.go\<close>)\<close>

text \<open>
  The inner loop of \<open>parseCommandData\<close>: the actions of one frame, each stamped with
  the frame's player. It stops at the first opcode \<open>parseAction\<close> does not know.
\<close>

function parseActions ::
  "byte list \<Rightarrow> byte list \<Rightarrow> u32 \<Rightarrow> byte \<Rightarrow> nat \<Rightarrow> nat \<Rightarrow> (byte \<times> GameAction) list \<Rightarrow>
   error + (byte \<times> GameAction) list" where
  "parseActions data spare version playerID actionEnd offset results =
     (if offset < actionEnd then
        (case parseAction data spare offset version of
           Inl e \<Rightarrow> Inl e
         | Inr (Some action, newOffset) \<Rightarrow>
             parseActions data spare version playerID actionEnd newOffset
               (results @ [(playerID, action\<lparr>PlayerID := playerID\<rparr>)])
         | Inr (None, newOffset) \<Rightarrow> Inr results)
      else Inr results)"
  by pat_completeness auto
termination
  apply (relation "measure (\<lambda>(data, spare, version, playerID, actionEnd, offset, results). actionEnd - offset)")
   apply simp
  subgoal for data spare version playerID actionEnd offset results x xa y action
    using parseAction_advances [of data spare offset version action y] by auto
  done

declare parseActions.simps [simp del]

text \<open>The outer loop of \<open>parseCommandData\<close> over the frames, up to \<open>end\<close>.\<close>

function parseFrames ::
  "byte list \<Rightarrow> byte list \<Rightarrow> u32 \<Rightarrow> nat \<Rightarrow> nat \<Rightarrow> (byte \<times> GameAction) list \<Rightarrow>
   error + (byte \<times> GameAction) list" where
  "parseFrames data spare version end offset results =
     (if offset < end then
        (if offset + 3 > length data then Inr results
         else
           (let playerID = data ! offset;
                offset1 = offset + 1;
                actionLength = unat (u16le data offset1);
                offset2 = offset1 + 2;
                actionEnd = offset2 + actionLength
            in case parseActions data spare version playerID actionEnd offset2 results of
                 Inl e \<Rightarrow> Inl e
               | Inr results' \<Rightarrow> parseFrames data spare version end actionEnd results'))
      else Inr results)"
  by pat_completeness auto
termination
  by (relation "measure (\<lambda>(data, spare, version, end, offset, results). end - offset)") auto

declare parseFrames.simps [simp del]

definition parseCommandData ::
  "byte list \<Rightarrow> byte list \<Rightarrow> nat \<Rightarrow> nat \<Rightarrow> u32 \<Rightarrow> error + (byte \<times> GameAction) list" where
  "parseCommandData data spare offset len version =
     parseFrames data spare version (offset + len) offset []"

section \<open>The event-stream walker (\<^verbatim>\<open>parser.go\<close>)\<close>

definition BlockLeaveGame :: byte where "BlockLeaveGame = 0x17"
definition BlockFirstStart :: byte where "BlockFirstStart = 0x1A"
definition BlockSecondStart :: byte where "BlockSecondStart = 0x1B"
definition BlockThirdStart :: byte where "BlockThirdStart = 0x1C"
definition BlockTimeSlotOld :: byte where "BlockTimeSlotOld = 0x1E"
definition BlockTimeSlot :: byte where "BlockTimeSlot = 0x1F"
definition BlockChat :: byte where "BlockChat = 0x20"
definition BlockChecksum :: byte where "BlockChecksum = 0x22"
definition BlockForcedEnd :: byte where "BlockForcedEnd = 0x2F"

text \<open>
  The loops of the form
  \<^verbatim>\<open>for _, player := range players { if player.ID == id { ...; break } }\<close>:
  the first player that matches is updated through its pointer.
\<close>

fun updateFirst :: "('a \<Rightarrow> bool) \<Rightarrow> ('a \<Rightarrow> 'a) \<Rightarrow> 'a list \<Rightarrow> 'a list" where
  "updateFirst P f [] = []"
| "updateFirst P f (x # xs) = (if P x then f x # xs else x # updateFirst P f xs)"

text \<open>
  The loop over the actions of one time slot: each action gets the current clock as its
  timestamp and is appended to the replay's actions, and the action count of the first
  player with the action's player ID goes up by one.
\<close>

fun applyCmdActions ::
  "u32 \<Rightarrow> (byte \<times> GameAction) list \<Rightarrow> PlayerInfo list \<Rightarrow> GameAction list \<Rightarrow>
   PlayerInfo list \<times> GameAction list" where
  "applyCmdActions currentTimeMs [] players actions = (players, actions)"
| "applyCmdActions currentTimeMs ((playerID, action) # cas) players actions =
     applyCmdActions currentTimeMs cas
       (updateFirst (\<lambda>player. ID player = playerID)
          (\<lambda>player. player\<lparr>ActionCount := ActionCount player + 1\<rparr>) players)
       (actions @ [action\<lparr>TimestampMs := currentTimeMs\<rparr>])"

text \<open>The variables of the walk over the replay data blocks.\<close>

record WalkState =
  w_offset :: nat
  w_currentTimeMs :: u32
  w_players :: "PlayerInfo list"
  w_chatMessages :: "ChatMessage list"
  w_actions :: "GameAction list"

text \<open>
  One turn of the loop \<^verbatim>\<open>for offset < len(data)\<close>: the block at the offset. In the
  \<^verbatim>\<open>default\<close> case the source runs \<^verbatim>\<open>continue\<close> when the parser is not strict and
  \<^verbatim>\<open>break\<close> when it is; the \<^verbatim>\<open>break\<close> leaves the \<^verbatim>\<open>switch\<close>, and the loop goes on
  with the next byte either way.
\<close>

definition blockStep ::
  "bool \<Rightarrow> u32 \<Rightarrow> byte list \<Rightarrow> byte list \<Rightarrow> (byte \<rightharpoonup> string) \<Rightarrow> WalkState \<Rightarrow> error + WalkState" where
  "blockStep strict version data spare playerNames st =
     (let blockID = data ! w_offset st;
          offset = w_offset st + 1
      in
      if blockID = BlockLeaveGame then
        (if offset + 13 \<le> length data then
           (let leavePlayerID = data ! (offset + 4);
                result = u32le data (offset + 5)
            in Inr (st\<lparr>w_offset := offset + 13,
                        w_players :=
                          updateFirst (\<lambda>player. ID player = leavePlayerID)
                            (\<lambda>player. player\<lparr>LeaveResult := Some (ucast result),
                                              LeaveTimeMs := Some (w_currentTimeMs st)\<rparr>)
                            (w_players st)\<rparr>))
         else Inr (st\<lparr>w_offset := offset\<rparr>))
      else if blockID = BlockFirstStart \<or> blockID = BlockSecondStart \<or> blockID = BlockThirdStart then
        Inr (st\<lparr>w_offset := offset + 4\<rparr>)
      else if blockID = BlockTimeSlot \<or> blockID = BlockTimeSlotOld then
        (if offset + 4 \<le> length data then
           (let numBytes = u16le data offset;
                timeIncrement = u16le data (offset + 2);
                offset1 = offset + 4;
                currentTimeMs = w_currentTimeMs st + ucast timeIncrement
            in
            if numBytes > 2 then
              (let cmdLength = unat (numBytes - 2) in
               case parseCommandData data spare offset1 cmdLength version of
                 Inl e \<Rightarrow> Inl e
               | Inr cmdActions \<Rightarrow>
                   (let (players, actions) =
                          applyCmdActions currentTimeMs cmdActions (w_players st) (w_actions st)
                    in Inr (st\<lparr>w_offset := offset1 + cmdLength, w_currentTimeMs := currentTimeMs,
                                w_players := players, w_actions := actions\<rparr>)))
            else Inr (st\<lparr>w_offset := offset1, w_currentTimeMs := currentTimeMs\<rparr>))
         else Inr (st\<lparr>w_offset := offset\<rparr>))
      else if blockID = BlockChat then
        (case parseChatMessage data offset playerNames of
           (Some chatMsg, newOffset) \<Rightarrow>
             Inr (st\<lparr>w_offset := newOffset,
                     w_chatMessages :=
                       w_chatMessages st @ [chatMsg\<lparr>chatTimestampMs := w_currentTimeMs st\<rparr>]\<rparr>)
         | (None, newOffset) \<Rightarrow> Inr (st\<lparr>w_offset := newOffset\<rparr>))
      else if blockID = BlockChecksum then
        (if offset < length data then Inr (st\<lparr>w_offset := offset + (1 + unat (data ! offset))\<rparr>)
         else Inr (st\<lparr>w_offset := offset\<rparr>))
      else if blockID = BlockForcedEnd then Inr (st\<lparr>w_offset := offset + 8\<rparr>)
      else if blockID = 0x23 then
        (if offset < length data then Inr (st\<lparr>w_offset := offset + (1 + unat (data ! offset))\<rparr>)
         else Inr (st\<lparr>w_offset := offset\<rparr>))
      else
        (if \<not> strict then Inr (st\<lparr>w_offset := offset\<rparr>)
         else Inr (st\<lparr>w_offset := offset\<rparr>)))"

lemma scanNul_ge_trans: "a \<le> b \<Longrightarrow> a \<le> scanNul data b"
  using scanNul_ge [of b data] by simp

lemma parseChatMessage_ge: "offset \<le> snd (parseChatMessage data offset playerNames)"
  by (simp add: parseChatMessage_def Let_def le_SucI scanNul_ge_trans split: prod.split)

lemma blockStep_advances:
  assumes "blockStep strict version data spare playerNames st = Inr st'"
  shows "w_offset st < w_offset st'"
proof -
  have "Suc (w_offset st) \<le> snd (parseChatMessage data (Suc (w_offset st)) playerNames)"
    by (rule parseChatMessage_ge)
  with assms show ?thesis
    by (auto simp: blockStep_def Let_def split: if_splits sum.splits prod.splits option.splits)
qed

function walk ::
  "bool \<Rightarrow> u32 \<Rightarrow> byte list \<Rightarrow> byte list \<Rightarrow> (byte \<rightharpoonup> string) \<Rightarrow> WalkState \<Rightarrow> error + WalkState" where
  "walk strict version data spare playerNames st =
     (if w_offset st < length data then
        (case blockStep strict version data spare playerNames st of
           Inl e \<Rightarrow> Inl e
         | Inr st' \<Rightarrow> walk strict version data spare playerNames st')
      else Inr st)"
  by pat_completeness auto
termination
  apply (relation "measure (\<lambda>(strict, version, data, spare, playerNames, st). length data - w_offset st)")
   apply simp
  subgoal for strict version data spare playerNames st st'
    using blockStep_advances [of strict version data spare playerNames st st'] by simp
  done

declare walk.simps [simp del]

section \<open>\<open>parseGameData\<close> and \<open>Parse\<close> (\<^verbatim>\<open>parser.go\<close>)\<close>

lemma parsePlayerRecord_advances:
  assumes "parsePlayerRecord data offset isHost = (Some player, newOffset)"
  shows "offset < newOffset"
  using assms scanNul_ge [of "Suc (Suc offset)" data]
  by (auto simp: parsePlayerRecord_def Let_def split: if_splits prod.splits)

text \<open>The loop over the additional player records.\<close>

function parseAdditionalPlayers ::
  "byte list \<Rightarrow> nat \<Rightarrow> PlayerInfo list \<Rightarrow> (byte \<rightharpoonup> string) \<Rightarrow>
   PlayerInfo list \<times> (byte \<rightharpoonup> string) \<times> nat" where
  "parseAdditionalPlayers data offset players playerNames =
     (if offset < length data then
        (case parsePlayerRecord data offset False of
           (Some player, newOffset) \<Rightarrow>
             parseAdditionalPlayers data newOffset (players @ [player])
               (playerNames(ID player \<mapsto> Name player))
         | (None, newOffset) \<Rightarrow> (players, playerNames, offset))
      else (players, playerNames, offset))"
  by pat_completeness auto
termination
  apply (relation "measure (\<lambda>(data, offset, players, playerNames). length data - offset)")
   apply simp
  subgoal for data offset players playerNames x y player
    using parsePlayerRecord_advances [of data offset False player y] by simp
  done

declare parseAdditionalPlayers.simps [simp del]

text \<open>
  The search for a valid game-start record:
  \<^verbatim>\<open>for searchOffset < len(data)-4\<close>, left at the first valid record.
\<close>

function findGameStart :: "byte list \<Rightarrow> nat \<Rightarrow> nat" where
  "findGameStart data searchOffset =
     (if searchOffset + 4 < length data then
        (if data ! searchOffset = BlockGameStart \<and> isValidGameStartRecord data searchOffset
         then searchOffset
         else findGameStart data (searchOffset + 1))
      else searchOffset)"
  by pat_completeness auto
termination
  by (relation "measure (\<lambda>(data, searchOffset). length data - searchOffset)") auto

declare findGameStart.simps [simp del]

text \<open>
  \<open>parseGameData\<close> is in two parts here. \<open>parseLobby\<close> is the part in front of the
  loop over the replay data blocks: the host record, the game name, the encoded settings,
  the additional players and the game-start record. It returns what that part leaves in
  the local variables of \<open>parseGameData\<close>, on the decompressed data and the spare
  capacity of its slice.
\<close>

record LobbyInfo =
  l_gameName :: string
  l_mapName :: string
  l_mapPath :: string
  l_hostName :: string
  l_settings :: GameSettings
  l_playerNames :: "byte \<rightharpoonup> string"
  l_players :: "PlayerInfo list"
  l_offset :: nat

definition parseLobby :: "byte list \<Rightarrow> byte list \<Rightarrow> u32 \<Rightarrow> error + LobbyInfo" where
  "parseLobby data spare version =
     (let offset0 = (0::nat);
          offset1 = (if offset0 + 4 \<le> length data then offset0 + 4 else offset0);
          (hostPlayer, newOffset) = parsePlayerRecord data offset1 True;
          (players1, playerNames1, hostName, offset2) =
            (case hostPlayer of
               Some hp \<Rightarrow> ([hp\<lparr>IsHost := True\<rparr>], [ID hp \<mapsto> Name hp], Name hp, newOffset)
             | None \<Rightarrow> ([], Map.empty, [], offset1));
          gameNameStart = offset2;
          offset3 = scanNul data offset2
      in
      case goslice data spare gameNameStart offset3 of
        Inl e \<Rightarrow> Inl e
      | Inr gameNameBytes \<Rightarrow>
          (let gameName = gostring gameNameBytes;
               offset4 = offset3 + 1;
               offset5 = (if offset4 < length data \<and> data ! offset4 = 0 then offset4 + 1 else offset4);
               (encodedData, offset6) = decodeEncodedString data offset5;
               (settings, mapPath, mapName) =
                 (if length encodedData > 0 then parseEncodedSettings encodedData
                  else (zeroSettings\<lparr>Speed := 2\<rparr>, [], []));
               offset7 = (if offset6 + 12 \<le> length data then offset6 + 12 else offset6);
               (players2, playerNames2, offset8) =
                 parseAdditionalPlayers data offset7 players1 playerNames1;
               offset9 =
                 (if offset8 < length data \<and> \<not> isValidGameStartRecord data offset8 then
                    (let searchOffset = findGameStart data offset8 in
                     if searchOffset < length data \<and> isValidGameStartRecord data searchOffset
                     then searchOffset else offset8)
                  else offset8);
               (players3, offset10) =
                 (if offset9 < length data \<and> data ! offset9 = BlockGameStart then
                    (let (slots, randomSeed, selectMode, newOffset) =
                           parseGameStartRecord data offset9 version
                     in (fst (applySlotInfoToPlayers players2 slots version), newOffset))
                  else (players2, offset9))
           in Inr \<lparr>l_gameName = gameName, l_mapName = mapName, l_mapPath = mapPath,
                   l_hostName = hostName, l_settings = settings, l_playerNames = playerNames2,
                   l_players = players3, l_offset = offset10\<rparr>))"

text \<open>The variables of the walk when the loop over the blocks starts.\<close>

definition startState :: "LobbyInfo \<Rightarrow> WalkState" where
  "startState lobby =
     \<lparr>w_offset = l_offset lobby, w_currentTimeMs = 0, w_players = l_players lobby,
      w_chatMessages = [], w_actions = []\<rparr>"

text \<open>
  The second part is the loop and the end of \<open>parseGameData\<close>.
  \<^verbatim>\<open>player.LeaveTimeMs = &currentTimeMs\<close> stores a pointer to the walker's clock
  variable, so what a player's leave time reads once the walk is over is the final clock;
  the last \<open>map\<close> writes that value. \<^verbatim>\<open>ActionCount\<close> is a Go \<^verbatim>\<open>int\<close>; no input
  that fits in memory brings it near \<open>2 ^ 63\<close>, and it is an unbounded integer here.
\<close>

definition parseGameData ::
  "bool \<Rightarrow> ReplayHeader \<Rightarrow> byte list \<Rightarrow> byte list \<Rightarrow> error + W3GReplay" where
  "parseGameData strict header data spare =
     (case parseLobby data spare (Version header) of
        Inl e \<Rightarrow> Inl e
      | Inr lobby \<Rightarrow>
          (case walk strict (Version header) data spare (l_playerNames lobby) (startState lobby) of
             Inl e \<Rightarrow> Inl e
           | Inr st \<Rightarrow>
               (let durationMinutes = real (unat (DurationMs header)) / 60000;
                    players4 =
                      (if durationMinutes > 0 then
                         map (\<lambda>player. player\<lparr>APM := real_of_int (ActionCount player) / durationMinutes\<rparr>)
                           (w_players st)
                       else w_players st);
                    players5 =
                      map (\<lambda>player. player\<lparr>LeaveTimeMs :=
                                                map_option (\<lambda>t. w_currentTimeMs st) (LeaveTimeMs player)\<rparr>)
                        players4
                in Inr \<lparr>Header = header, GameName = l_gameName lobby, MapName = l_mapName lobby,
                        MapPath = l_mapPath lobby, HostName = l_hostName lobby,
                        Settings = l_settings lobby, Players = players5,
                        ChatMessages = w_chatMessages st, Actions = w_actions st,
                        RawDecompressed = data\<rparr>)))"


section \<open>Null-terminated runs\<close>

lemma scanNul_takeWhile:
  "scanNul data k = k + length (takeWhile (\<lambda>b. b \<noteq> 0) (drop k data))"
proof (induction data k rule: scanNul.induct)
  case (1 data offset)
  show ?case
  proof (cases "offset < length data")
    case True
    then have d: "drop offset data = data ! offset # drop (Suc offset) data"
      by (simp add: Cons_nth_drop_Suc)
    show ?thesis
    proof (cases "data ! offset = 0")
      case True
      with d show ?thesis
        by (subst scanNul.simps) simp
    next
      case False
      with \<open>offset < length data\<close> d "1.IH" show ?thesis
        by (subst scanNul.simps) simp
    qed
  next
    case False
    then show ?thesis
      by (subst scanNul.simps) simp
  qed
qed

lemma take_length_takeWhile: "take (length (takeWhile P xs)) xs = takeWhile P xs"
  by (induction xs) auto

section \<open>The chat decoder on unknown flags\<close>

text \<open>
  Claim C10. For a chat block whose flags byte is neither \<open>0x10\<close> (startup) nor \<open>0x20\<close>
  (normal), \<open>parseChatMessage\<close> does not fail and does not skip the block: it returns a
  message with mode 0 and the startup flag unset, whose body is the run of bytes from the
  byte behind the flags byte up to the first NUL (or the end of the data), and the
  offset it returns is one past the end of that run, past the terminator.
\<close>

theorem parseChatMessage_unknown_flags:
  assumes "offset + 4 \<le> length data"
    and "data ! (offset + 3) \<noteq> ChatFlagStartup"
    and "data ! (offset + 3) \<noteq> ChatFlagNormal"
  shows "\<exists>msg. parseChatMessage data offset playerNames =
             (Some msg, offset + 4 + length (takeWhile (\<lambda>b. b \<noteq> 0) (drop (offset + 4) data)) + 1)
           \<and> Mode msg = 0 \<and> \<not> IsStartup msg
           \<and> Message msg = gostring (takeWhile (\<lambda>b. b \<noteq> 0) (drop (offset + 4) data))"
proof -
  have a: "offset + 1 + 2 = offset + 3" "offset + 1 + 2 + 1 = offset + 4"
    by simp_all
  show ?thesis
    using assms
    unfolding parseChatMessage_def Let_def a
    by (simp add: scanNul_takeWhile take_length_takeWhile add.commute)
qed

theorem parseChatMessage_unknown_flags_witness:
  "\<exists>msg. parseChatMessage [2, 3, 0, 0x30, 0x68, 0x69, 0, 0x1F] 0 Map.empty = (Some msg, 7)
         \<and> Mode msg = 0 \<and> \<not> IsStartup msg \<and> Message msg = ''hi''"
  using parseChatMessage_unknown_flags [of 0 "[2, 3, 0, 0x30, 0x68, 0x69, 0, 0x1F]" Map.empty]
  by (simp add: ChatFlagStartup_def ChatFlagNormal_def gostring_def char_of_def bit_Suc_0_iff)

section \<open>The outcomes of the header decoder\<close>

lemma u32le_take: "off + 4 \<le> n \<Longrightarrow> u32le (take n r) off = u32le r off"
  by (simp add: u32le_def)

text \<open>The header-variant field at offset \<open>0x24\<close>.\<close>

definition headerVariant :: "byte list \<Rightarrow> u32" where
  "headerVariant r = u32le r 0x24"

lemma parseHeader_short: "length r < 48 \<Longrightarrow> parseHeader r = Inl (Truncated 48)"
  by (simp add: parseHeader_def readFull_def BaseHeaderSize_def)

lemma parseHeader_bad_magic:
  "48 \<le> length r \<Longrightarrow> take 28 r \<noteq> MagicString \<Longrightarrow> parseHeader r = Inl InvalidHeader"
  by (simp add: parseHeader_def readFull_def BaseHeaderSize_def min_def)

lemma parseHeader_bad_variant:
  "48 \<le> length r \<Longrightarrow> take 28 r = MagicString \<Longrightarrow> headerVariant r \<noteq> 0 \<Longrightarrow>
   headerVariant r \<noteq> 1 \<Longrightarrow> parseHeader r = Inl InvalidHeader"
  by (simp add: parseHeader_def readFull_def BaseHeaderSize_def min_def Let_def u32le_take
        headerVariant_def)

lemma parseHeader_short_sub:
  "48 \<le> length r \<Longrightarrow> take 28 r = MagicString \<Longrightarrow>
   headerVariant r = 0 \<and> length r < 64 \<or> headerVariant r = 1 \<and> length r < 68 \<Longrightarrow>
   parseHeader r = Inl (Truncated 48)"
  by (auto simp: parseHeader_def readFull_def BaseHeaderSize_def min_def Let_def u32le_take
        headerVariant_def SubHeaderV0Size_def SubHeaderV1Size_def)

lemma parseHeader_ok:
  "take 28 r = MagicString \<Longrightarrow>
   headerVariant r = 0 \<and> 64 \<le> length r \<or> headerVariant r = 1 \<and> 68 \<le> length r \<Longrightarrow>
   \<exists>h. parseHeader r = Inr h"
  by (auto simp: parseHeader_def readFull_def BaseHeaderSize_def min_def Let_def u32le_take
        headerVariant_def SubHeaderV0Size_def SubHeaderV1Size_def)

text \<open>
  Claim C9, amended. On at least 48 bytes of input \<open>parseHeader\<close> fails with
  \<open>InvalidHeader\<close> exactly when the first 28 bytes differ from the magic string or the
  header variant is neither 0 nor 1. It fails with \<open>Truncated\<close> exactly when there are
  fewer than 48 bytes, or the magic and the variant are valid and fewer than 16 (variant 0)
  or 20 (variant 1) bytes follow the base header. In every other case it succeeds.
\<close>

theorem parseHeader_outcome:
  "(parseHeader r = Inl InvalidHeader \<longleftrightarrow>
      48 \<le> length r \<and> (take 28 r \<noteq> MagicString \<or> headerVariant r \<noteq> 0 \<and> headerVariant r \<noteq> 1))
   \<and> ((\<exists>n. parseHeader r = Inl (Truncated n)) \<longleftrightarrow>
      length r < 48 \<or>
      take 28 r = MagicString \<and>
        (headerVariant r = 0 \<and> length r < 64 \<or> headerVariant r = 1 \<and> length r < 68))
   \<and> ((\<exists>h. parseHeader r = Inr h) \<longleftrightarrow>
      take 28 r = MagicString \<and>
        (headerVariant r = 0 \<and> 64 \<le> length r \<or> headerVariant r = 1 \<and> 68 \<le> length r))"
proof -
  consider (short) "length r < 48"
    | (magic) "48 \<le> length r" "take 28 r \<noteq> MagicString"
    | (variant) "48 \<le> length r" "take 28 r = MagicString" "headerVariant r \<noteq> 0" "headerVariant r \<noteq> 1"
    | (sub) "48 \<le> length r" "take 28 r = MagicString"
        "headerVariant r = 0 \<and> length r < 64 \<or> headerVariant r = 1 \<and> length r < 68"
    | (ok) "take 28 r = MagicString"
        "headerVariant r = 0 \<and> 64 \<le> length r \<or> headerVariant r = 1 \<and> 68 \<le> length r"
    by (cases "length r < 48"; cases "take 28 r = MagicString"; cases "headerVariant r = 0";
        cases "headerVariant r = 1"; cases "length r < 64"; cases "length r < 68") auto
  then show ?thesis
  proof cases
    case short
    then show ?thesis using parseHeader_short [OF short] by auto
  next
    case magic
    then show ?thesis using parseHeader_bad_magic [OF magic] by auto
  next
    case variant
    then show ?thesis using parseHeader_bad_variant [OF variant] by auto
  next
    case sub
    then show ?thesis using parseHeader_short_sub [OF sub] by auto
  next
    case ok
    then show ?thesis using parseHeader_ok [OF ok] by auto
  qed
qed

text \<open>A variant-0 header: magic, header size 64, no block, version 6.\<close>

definition classicHeader :: "byte list" where
  "classicHeader =
     MagicString @ [0x40, 0, 0, 0,  0x40, 0, 0, 0,  0, 0, 0, 0,  0, 0, 0, 0,  0, 0, 0, 0]
       @ [0, 0, 6, 0, 0, 0, 0, 0,  0, 0, 0, 0,  0, 0, 0, 0]"

lemma length_MagicString: "length MagicString = 28"
  by (simp add: MagicString_def gobytes_def)

theorem parseHeader_outcome_witness:
  "(\<exists>h. parseHeader classicHeader = Inr h)
   \<and> parseHeader (take 50 classicHeader) = Inl (Truncated 48)
   \<and> parseHeader (0 # replicate 47 0) = Inl InvalidHeader"
proof -
  have m: "take 28 classicHeader = MagicString" "length classicHeader = 64"
    "headerVariant classicHeader = 0" "headerVariant (take 50 classicHeader) = 0"
    "take 28 (0 # replicate 47 0) \<noteq> MagicString"
    by (simp_all add: classicHeader_def length_MagicString headerVariant_def u32le_def nth_append
          MagicString_def gobytes_def)
  have a: "\<exists>h. parseHeader classicHeader = Inr h"
    using parseHeader_outcome [of classicHeader] m by simp
  have "\<exists>n. parseHeader (take 50 classicHeader) = Inl (Truncated n)"
    using parseHeader_outcome [of "take 50 classicHeader"] m by simp
  then have b: "parseHeader (take 50 classicHeader) = Inl (Truncated 48)"
    using parseHeader_short_sub [of "take 50 classicHeader"] m by simp
  have c: "parseHeader (0 # replicate 47 0) = Inl InvalidHeader"
    using parseHeader_outcome [of "0 # replicate 47 0"] m by simp
  from a b c show ?thesis by simp
qed

text \<open>
  Claim C9 as stated fails on an input shorter than the base header: its first 28 bytes
  differ from the magic string, and the decoder reports \<open>Truncated\<close>, not
  \<open>InvalidHeader\<close>.
\<close>

theorem parseHeader_short_input_counterexample:
  "take 28 ((0::byte) # replicate 29 0) \<noteq> MagicString
   \<and> parseHeader (0 # replicate 29 0) \<noteq> Inl InvalidHeader"
  by (simp add: parseHeader_short MagicString_def gobytes_def)

section \<open>The width of the opaque ability actions\<close>

lemma parseAction_0x13:
  assumes "offset < length data" "data ! offset = 0x13"
    and "offset + (if 13 \<le> version then 38 else 37) \<le> length data"
  shows "\<exists>a. parseAction data spare offset version
               = Inr (Some a, offset + (if 13 \<le> version then 38 else 37))
             \<and> ActionType a = 0x13"
  using assms
  by (simp add: parseAction_def actionBody_def goslice_def Let_def)

lemma parseAction_0x14:
  assumes "offset < length data" "data ! offset = 0x14"
    and "offset + (if 13 \<le> version then 43 else 42) \<le> length data"
  shows "\<exists>a. parseAction data spare offset version
               = Inr (Some a, offset + (if 13 \<le> version then 43 else 42))
             \<and> ActionType a = 0x14"
  using assms
  by (simp add: parseAction_def actionBody_def goslice_def Let_def)

text \<open>
  Opcode \<open>0x10\<close> under its length check: the offset moves by the flags and by
  \<open>actionSize - 1 - flagsSize\<close>, 13 bytes past the opcode from version 13 on and 12 before.
\<close>

lemma parseAction_0x10:
  assumes "offset < length data" "data ! offset = 0x10"
    and "offset + (if 13 \<le> version then 14 else 13) \<le> length data"
  shows "\<exists>a. parseAction data spare offset version
               = Inr (Some a, offset + 1 + (if 13 \<le> version then 13 else 12))
             \<and> ActionType a = 0x10"
proof (cases "13 \<le> version")
  case True
  then have "\<not> version < 13" by simp
  with True assms show ?thesis
    by (simp add: parseAction_def actionBody_def abilityFlags_def goslice_def Let_def)
next
  case False
  then have "version < 13" by simp
  with False assms show ?thesis
    by (simp add: parseAction_def actionBody_def abilityFlags_def goslice_def Let_def)
qed

text \<open>
  Claim C7, amended. When enough bytes remain, decoding opcode \<open>0x13\<close> moves the offset
  by 38 bytes counted from the opcode byte, that is 37 bytes past the opcode, and decoding
  opcode \<open>0x14\<close> by 43 bytes counted from the opcode byte, 42 past it, for a game version
  of 13 or more; each width is one smaller for a version below 13.
\<close>

theorem parseAction_opaque_ability_width:
  assumes "offset < length data"
  shows "(data ! offset = 0x13 \<and> offset + (if 13 \<le> version then 38 else 37) \<le> length data \<longrightarrow>
            (\<exists>a. parseAction data spare offset version
                    = Inr (Some a, offset + 1 + (if 13 \<le> version then 37 else 36))
                  \<and> ActionType a = 0x13))
       \<and> (data ! offset = 0x14 \<and> offset + (if 13 \<le> version then 43 else 42) \<le> length data \<longrightarrow>
            (\<exists>a. parseAction data spare offset version
                    = Inr (Some a, offset + 1 + (if 13 \<le> version then 42 else 41))
                  \<and> ActionType a = 0x14))"
  using parseAction_0x13 [OF assms, of version spare] parseAction_0x14 [OF assms, of version spare]
  by (auto split: if_splits)

theorem parseAction_opaque_ability_width_witness:
  "(\<exists>a. parseAction (0x13 # replicate 39 0) [] 0 13 = Inr (Some a, 38) \<and> ActionType a = 0x13)
   \<and> (\<exists>a. parseAction (0x14 # replicate 42 0) [] 0 12 = Inr (Some a, 42) \<and> ActionType a = 0x14)"
  using parseAction_opaque_ability_width [of 0 "0x13 # replicate 39 0" 13 "[]"]
    parseAction_opaque_ability_width [of 0 "0x14 # replicate 42 0" 12 "[]"]
  by simp

text \<open>
  Claim C7 as stated fails: at version 13, with 39 bytes behind the opcode \<open>0x13\<close>, the
  offset behind the action is 38, which is 37 bytes past the opcode and not 38.
\<close>

theorem parseAction_drop_item_counterexample:
  "\<not> (\<exists>a. parseAction (0x13 # replicate 39 0) [] 0 13 = Inr (Some a, 0 + 1 + 38))"
  using parseAction_0x13 [of 0 "0x13 # replicate 39 0" 13 "[]"] by auto

section \<open>Decoding an encoded string\<close>

text \<open>
  Modelled from the spec: the encoder of the control-byte stuffing scheme, which the
  repository does not contain (it only decodes). The spec's section 4.3 and the comment of
  \<^verbatim>\<open>decodeEncodedString\<close> describe it: the data bytes go out in groups of up to seven
  behind a control byte; every even byte value is incremented by one, so that no encoded
  byte is zero; bit \<open>b\<close> (from 1 to 7) of the control byte is 0 when the \<open>b\<close>-th data byte
  of the group was incremented and 1 when it was stored as it is; bit 0 of the control byte
  is set, so that the control byte is not zero either; a zero byte ends the string.
\<close>

definition encodeByte :: "byte \<Rightarrow> byte" where
  "encodeByte b = (if even b then b + 1 else b)"

fun controlBits :: "byte list \<Rightarrow> nat \<Rightarrow> byte" where
  "controlBits [] k = 0"
| "controlBits (b # bs) k = (if even b then 0 else push_bit k 1) OR controlBits bs (Suc k)"

definition controlByte :: "byte list \<Rightarrow> byte" where
  "controlByte chunk = 1 OR controlBits chunk 1"

function encodeChunks :: "byte list \<Rightarrow> byte list" where
  "encodeChunks s =
     (if s = [] then []
      else controlByte (take 7 s) # map encodeByte (take 7 s) @ encodeChunks (drop 7 s))"
  by pat_completeness auto
termination
  by (relation "measure length") auto

declare encodeChunks.simps [simp del]

definition encodeString :: "byte list \<Rightarrow> byte list" where
  "encodeString s = encodeChunks s @ [0]"

lemma encodeByte_nonzero: "encodeByte b \<noteq> 0"
proof (cases "even b")
  case True
  then have "odd (b + 1)" by simp
  then have "b + 1 \<noteq> 0" by fastforce
  with True show ?thesis by (simp add: encodeByte_def)
next
  case False
  then have "b \<noteq> 0" by fastforce
  with False show ?thesis by (simp add: encodeByte_def)
qed

lemma bit_controlBits:
  "bit (controlBits bs k) n \<longleftrightarrow> n < 8 \<and> k \<le> n \<and> n - k < length bs \<and> odd (bs ! (n - k))"
proof (induction bs arbitrary: k n)
  case Nil
  show ?case by simp
next
  case (Cons b bs)
  show ?case
  proof (cases "n = k")
    case True
    then show ?thesis
      by (auto simp: Cons bit_simps)
  next
    case False
    then show ?thesis
      by (auto simp: Cons bit_simps nth_Cons' Suc_diff_le)
  qed
qed

lemma controlByte_test:
  assumes "i < length chunk" "length chunk \<le> 7"
  shows "controlByte chunk AND push_bit (i + 1) 1 = 0 \<longleftrightarrow> even (chunk ! i)"
proof -
  have "push_bit (i + 1) 1 = (2::byte) ^ Suc i"
    by (simp add: push_bit_of_1)
  then have "controlByte chunk AND push_bit (i + 1) 1 = 0 \<longleftrightarrow> \<not> bit (controlByte chunk) (Suc i)"
    by (simp only: and_exp_eq_0_iff_not_bit)
  also have "\<dots> \<longleftrightarrow> even (chunk ! i)"
    using assms by (simp add: controlByte_def bit_simps bit_controlBits)
  finally show ?thesis .
qed

lemma controlByte_nonzero: "controlByte chunk \<noteq> 0"
proof -
  have "bit (controlByte chunk) 0"
    by (simp add: controlByte_def bit_or_iff bit_1_iff)
  then show ?thesis by fastforce
qed

lemma decodeGroup_chunk:
  assumes "bitno + length ys \<le> 7"
    and "\<forall>i<length ys. (control AND push_bit (bitno + i + 1) 1 = 0) \<longleftrightarrow> even (ys ! i)"
  shows "decodeGroup (pre @ map encodeByte ys @ rest) (length pre) control bitno result
           = decodeGroup (pre @ map encodeByte ys @ rest) (length pre + length ys) control
               (bitno + length ys) (result @ ys)"
  using assms
proof (induction ys arbitrary: pre bitno result)
  case Nil
  show ?case by simp
next
  case (Cons y ys)
  let ?data = "pre @ map encodeByte (y # ys) @ rest"
  have lt: "bitno < 7" using Cons.prems(1) by simp
  have test: "(control AND push_bit (bitno + 1) 1 = 0) \<longleftrightarrow> even y"
    using Cons.prems(2) by auto
  have step: "decodeGroup ?data (length pre) control bitno result
                = decodeGroup ?data (length pre + 1) control (bitno + 1) (result @ [y])"
    using lt test
    by (subst decodeGroup.simps) (simp add: encodeByte_nonzero Let_def, simp add: encodeByte_def)
  have a: "bitno + 1 + length ys \<le> 7" using Cons.prems(1) by simp
  have b: "\<forall>i<length ys. (control AND push_bit (bitno + 1 + i + 1) 1 = 0) \<longleftrightarrow> even (ys ! i)"
    using Cons.prems(2) by fastforce
  from Cons.IH [OF a b, of "pre @ [encodeByte y]" "result @ [y]"] step
  show ?case by simp
qed

lemma decodeGroup_full:
  assumes "length chunk = 7"
  shows "decodeGroup (pre @ map encodeByte chunk @ rest) (length pre) (controlByte chunk) 0 result
           = (False, result @ chunk, length pre + 7)"
proof -
  have "\<forall>i<length chunk. (controlByte chunk AND push_bit (0 + i + 1) 1 = 0) \<longleftrightarrow> even (chunk ! i)"
    using assms controlByte_test [of _ chunk] by simp
  from decodeGroup_chunk [OF _ this, of pre rest result] assms
  show ?thesis
    by (simp add: decodeGroup.simps [of _ _ _ 7])
qed

lemma decodeGroup_last:
  assumes "length chunk < 7"
  shows "decodeGroup (pre @ map encodeByte chunk @ 0 # rest) (length pre) (controlByte chunk) 0 result
           = (True, result @ chunk @ [0], length pre + length chunk + 1)"
proof -
  have "\<forall>i<length chunk. (controlByte chunk AND push_bit (0 + i + 1) 1 = 0) \<longleftrightarrow> even (chunk ! i)"
    using assms controlByte_test [of _ chunk] by simp
  from decodeGroup_chunk [OF _ this, of pre "0 # rest" result] assms
  show ?thesis
    by (simp add: decodeGroup.simps [of _ "length pre + length chunk"] nth_append)
qed

lemma encodeChunks_Nil: "encodeChunks [] = []"
  by (simp add: encodeChunks.simps)

lemma encodeChunks_Cons:
  "s \<noteq> [] \<Longrightarrow>
   encodeChunks s = controlByte (take 7 s) # map encodeByte (take 7 s) @ encodeChunks (drop 7 s)"
  by (subst encodeChunks.simps) simp

lemma decodeLoop_encodeChunks:
  "decodeLoop (pre @ encodeChunks s @ [0]) (length pre) result
     = (result @ s @ (if length s mod 7 = 0 then [] else [0]),
        length pre + length (encodeChunks s) + 1)"
proof (induction s arbitrary: pre result rule: encodeChunks.induct)
  case (1 s)
  show ?case
  proof (cases "s = []")
    case True
    then show ?thesis
      by (subst decodeLoop.simps) (simp add: encodeChunks_Nil)
  next
    case False
    define chunk where "chunk = take 7 s"
    define c where "c = controlByte chunk"
    define s' where "s' = drop 7 s"
    have enc: "encodeChunks s = c # map encodeByte chunk @ encodeChunks s'"
      using False by (simp add: encodeChunks_Cons chunk_def c_def s'_def)
    have c0: "c \<noteq> 0" by (simp add: c_def controlByte_nonzero)
    let ?data = "pre @ encodeChunks s @ [0]"
    have data: "?data = (pre @ [c]) @ map encodeByte chunk @ (encodeChunks s' @ [0])"
      by (simp add: enc)
    have start: "decodeLoop ?data (length pre) result
                   = (case decodeGroup ?data (length pre + 1) c 0 result of
                        (True, r, p) \<Rightarrow> (r, p)
                      | (False, r, p) \<Rightarrow> decodeLoop ?data p r)"
      using c0 by (subst decodeLoop.simps) (simp add: enc Let_def)
    show ?thesis
    proof (cases "7 \<le> length s")
      case True
      then have len: "length chunk = 7" by (simp add: chunk_def)
      have s: "s = chunk @ s'" by (simp add: chunk_def s'_def)
      have md: "length s mod 7 = length s' mod 7"
        using True by (simp add: s'_def le_mod_geq)
      have grp: "decodeGroup ?data (length pre + 1) c 0 result = (False, result @ chunk, length pre + 8)"
        using decodeGroup_full [OF len, of "pre @ [c]" "encodeChunks s' @ [0]" result]
        unfolding data c_def by simp
      have ih: "decodeLoop ((pre @ c # map encodeByte chunk) @ encodeChunks s' @ [0])
                  (length (pre @ c # map encodeByte chunk)) (result @ chunk)
                = ((result @ chunk) @ s' @ (if length s' mod 7 = 0 then [] else [0]),
                   length (pre @ c # map encodeByte chunk) + length (encodeChunks s') + 1)"
        using "1.IH" [OF False, of "pre @ c # map encodeByte chunk" "result @ chunk"]
        by (simp add: s'_def)
      have "decodeLoop ?data (length pre) result = decodeLoop ?data (length pre + 8) (result @ chunk)"
        unfolding start grp by simp
      also have "\<dots> = (result @ s @ (if length s mod 7 = 0 then [] else [0]),
                        length pre + length (encodeChunks s) + 1)"
        using ih len by (simp add: enc md) (simp add: s)
      finally show ?thesis .
    next
      case False
      then have len: "length chunk < 7" and cs: "chunk = s" and s': "s' = []"
        by (simp_all add: chunk_def s'_def)
      have md: "length s mod 7 \<noteq> 0"
        using False \<open>s \<noteq> []\<close> by simp
      have grp: "decodeGroup ?data (length pre + 1) c 0 result
                   = (True, result @ chunk @ [0], length pre + 1 + length chunk + 1)"
        using decodeGroup_last [OF len, of "pre @ [c]" "[]" result]
        unfolding data c_def s' by (simp add: encodeChunks_Nil)
      show ?thesis
        unfolding start grp using md by (simp add: enc cs s' encodeChunks_Nil)
    qed
  qed
qed

text \<open>
  Claim C6, amended. For every byte string \<open>s\<close> without a NUL byte, decoding the encoding
  of \<open>s\<close> consumes the whole encoding and yields \<open>s\<close> when the length of \<open>s\<close> is a
  multiple of 7, and \<open>s\<close> followed by one NUL byte otherwise.
\<close>

theorem decodeEncodedString_encodeString:
  assumes "0 \<notin> set s"
  shows "decodeEncodedString (encodeString s) 0
           = (if length s mod 7 = 0 then s else s @ [0], length (encodeString s))"
  using decodeLoop_encodeChunks [of "[]" s "[]"]
  by (simp add: decodeEncodedString_def encodeString_def)

theorem decodeEncodedString_encodeString_witness:
  "0 \<notin> set [0x61, 0x62 :: byte]
   \<and> decodeEncodedString (encodeString [0x61, 0x62]) 0 = ([0x61, 0x62, 0], 4)"
proof -
  have a: "(0::byte) \<notin> set [0x61, 0x62]" by simp
  have "length (encodeString [0x61, 0x62]) = 4"
    by (simp add: encodeString_def encodeChunks.simps)
  with decodeEncodedString_encodeString [OF a] a show ?thesis by simp
qed

text \<open>
  Claim C6 as stated fails on a string of one byte: the terminator stands in a data
  position of the group, where the decoder appends a NUL byte before it returns.
\<close>

theorem decodeEncodedString_not_left_inverse_counterexample:
  "0 \<notin> set [0x61 :: byte] \<and> fst (decodeEncodedString (encodeString [0x61]) 0) \<noteq> [0x61]"
  using decodeLoop_encodeChunks [of "[]" "[0x61]" "[]"]
  by (simp add: decodeEncodedString_def encodeString_def)

section \<open>Truncated input\<close>



















section \<open>Evaluating the parser on concrete data\<close>

text \<open>
  The loops as conditional rewrite rules: each rule fires once its loop condition is
  decided, so that the simplifier runs a loop on concrete data and leaves it alone on a
  variable.
\<close>

lemma showNat_eval:
  "n < 10 \<Longrightarrow> showNat n = [digit n]"
  "\<not> n < 10 \<Longrightarrow> showNat n = showNat (n div 10) @ [digit (n mod 10)]"
  by (subst showNat.simps, simp)+

lemma scanNul_eval:
  "offset < length data \<Longrightarrow> data ! offset \<noteq> 0 \<Longrightarrow> scanNul data offset = scanNul data (offset + 1)"
  "offset < length data \<Longrightarrow> data ! offset = 0 \<Longrightarrow> scanNul data offset = offset"
  "\<not> offset < length data \<Longrightarrow> scanNul data offset = offset"
  by (subst scanNul.simps, simp)+

lemma decodeGroup_eval:
  "\<not> bitno < 7 \<Longrightarrow> decodeGroup data pos control bitno result = (False, result, pos)"
  "bitno < 7 \<Longrightarrow> \<not> pos < length data \<Longrightarrow>
     decodeGroup data pos control bitno result = (False, result, pos)"
  "bitno < 7 \<Longrightarrow> pos < length data \<Longrightarrow> data ! pos = 0 \<Longrightarrow>
     decodeGroup data pos control bitno result = (True, result @ [0], pos + 1)"
  "bitno < 7 \<Longrightarrow> pos < length data \<Longrightarrow> data ! pos \<noteq> 0 \<Longrightarrow>
     decodeGroup data pos control bitno result =
       decodeGroup data (pos + 1) control (bitno + 1)
         (result @ [if control AND push_bit (bitno + 1) 1 = 0 then data ! pos - 1 else data ! pos])"
  by (subst decodeGroup.simps, simp add: Let_def)+

lemma decodeLoop_eval:
  "\<not> pos < length data \<Longrightarrow> decodeLoop data pos result = (result, pos)"
  "pos < length data \<Longrightarrow> data ! pos = 0 \<Longrightarrow> decodeLoop data pos result = (result, pos + 1)"
  "pos < length data \<Longrightarrow> data ! pos \<noteq> 0 \<Longrightarrow>
     decodeLoop data pos result =
       (case decodeGroup data (pos + 1) (data ! pos) 0 result of
          (True, r, p) \<Rightarrow> (r, p)
        | (False, r, p) \<Rightarrow> decodeLoop data p r)"
  by (subst decodeLoop.simps, simp add: Let_def)+

lemma parseActions_eval:
  "\<not> offset < actionEnd \<Longrightarrow>
     parseActions data spare version playerID actionEnd offset results = Inr results"
  "offset < actionEnd \<Longrightarrow>
     parseActions data spare version playerID actionEnd offset results =
       (case parseAction data spare offset version of
          Inl e \<Rightarrow> Inl e
        | Inr (Some action, newOffset) \<Rightarrow>
            parseActions data spare version playerID actionEnd newOffset
              (results @ [(playerID, action\<lparr>PlayerID := playerID\<rparr>)])
        | Inr (None, newOffset) \<Rightarrow> Inr results)"
  by (subst parseActions.simps, simp)+

lemma parseFrames_eval:
  "\<not> offset < end \<Longrightarrow> parseFrames data spare version end offset results = Inr results"
  "offset < end \<Longrightarrow> offset + 3 > length data \<Longrightarrow>
     parseFrames data spare version end offset results = Inr results"
  "offset < end \<Longrightarrow> offset + 3 \<le> length data \<Longrightarrow>
     parseFrames data spare version end offset results =
       (case parseActions data spare version (data ! offset)
               (offset + 3 + unat (u16le data (offset + 1))) (offset + 3) results of
          Inl e \<Rightarrow> Inl e
        | Inr results' \<Rightarrow>
            parseFrames data spare version end (offset + 3 + unat (u16le data (offset + 1))) results')"
  by (subst parseFrames.simps, simp add: Let_def numeral_3_eq_3 split: sum.splits)+

lemma walk_eval:
  "\<not> w_offset st < length data \<Longrightarrow> walk strict version data spare playerNames st = Inr st"
  "w_offset st < length data \<Longrightarrow>
     walk strict version data spare playerNames st =
       (case blockStep strict version data spare playerNames st of
          Inl e \<Rightarrow> Inl e
        | Inr st' \<Rightarrow> walk strict version data spare playerNames st')"
  by (subst walk.simps, simp)+

lemma parseAdditionalPlayers_eval:
  "\<not> offset < length data \<Longrightarrow>
     parseAdditionalPlayers data offset players playerNames = (players, playerNames, offset)"
  "offset < length data \<Longrightarrow>
     parseAdditionalPlayers data offset players playerNames =
       (case parsePlayerRecord data offset False of
          (Some player, newOffset) \<Rightarrow>
            parseAdditionalPlayers data newOffset (players @ [player])
              (playerNames(ID player \<mapsto> Name player))
        | (None, newOffset) \<Rightarrow> (players, playerNames, offset))"
  by (subst parseAdditionalPlayers.simps, simp)+

lemma findGameStart_eval:
  "\<not> searchOffset + 4 < length data \<Longrightarrow> findGameStart data searchOffset = searchOffset"
  "searchOffset + 4 < length data \<Longrightarrow> data ! searchOffset \<noteq> BlockGameStart \<Longrightarrow>
     findGameStart data searchOffset = findGameStart data (searchOffset + 1)"
  "searchOffset + 4 < length data \<Longrightarrow> data ! searchOffset = BlockGameStart \<Longrightarrow>
     findGameStart data searchOffset =
       (if isValidGameStartRecord data searchOffset then searchOffset
        else findGameStart data (searchOffset + 1))"
  by (subst findGameStart.simps, simp)+

lemma parseSlots_numeral:
  "parseSlots data version (numeral k) offset slots =
     (case parseSlotRecord data offset version of
        (Some slot, newOffset) \<Rightarrow> parseSlots data version (pred_numeral k) newOffset (slots @ [slot])
      | (None, newOffset) \<Rightarrow> parseSlots data version (pred_numeral k) newOffset slots)"
  by (simp add: numeral_eq_Suc)

lemma readObjectIDs_numeral:
  "readObjectIDs data (numeral k) offset objectIDs =
     (if offset + 8 \<le> length data
      then readObjectIDs data (pred_numeral k) (offset + 8) (objectIDs @ [u32le data offset])
      else (objectIDs, offset))"
  by (simp add: numeral_eq_Suc)

lemmas eval_defs = parseGameData_def parseLobby_def startState_def parsePlayerRecord_def scanNul_eval goslice_def gostring_def
  decodeEncodedString_def decodeLoop_eval decodeGroup_eval parseEncodedSettings_def
  parseAdditionalPlayers_eval isValidGameStartRecord_def findGameStart_eval
  parseGameStartRecord_def parseSlotRecord_def parseSlots_numeral applySlotInfoToPlayers_def
  walk_eval blockStep_def parseCommandData_def parseFrames_eval parseActions_eval
  parseAction_def actionBody_def abilityFlags_def readObjectIDs_numeral ActionNames_def
  parseChatMessage_def lookupName_def u16le_def u32le_def zeroPlayer_def zeroSettings_def
  RaceFromFlags_def BlockGameStart_def RecordHost_def RecordAdditionalPlayer_def
  SlotUsed_def SlotEmpty_def SlotClosed_def BlockLeaveGame_def BlockFirstStart_def
  BlockSecondStart_def BlockThirdStart_def BlockTimeSlot_def BlockTimeSlotOld_def
  BlockChat_def BlockChecksum_def BlockForcedEnd_def ChatFlagStartup_def ChatFlagNormal_def
  ObserverTeamClassic_def ObserverTeamReforged_def ReforgedVersionThreshold_def
  RaceUnknown_def RaceHuman_def RaceOrc_def RaceNightElf_def RaceUndead_def RaceRandom_def
  RaceSelectable_def hex2_def hexDigit_def showNat_eval digit_def extractMapName_def
  isSep_def char_of_def bit_Suc_0_iff Let_def

text \<open>A variant-1 header of The Frozen Throne, version 26, one minute long.\<close>

definition tftHeader :: ReplayHeader where
  "tftHeader =
     \<lparr>Magic = MagicString, HeaderSize = 68, CompressedSize = 0, HeaderVersion = 1,
      DecompressedSize = 0, NumCompressedBlocks = 1, GameIdentifier = ''W3XP'', Version = 26,
      BuildNumber = 6059, Flags = 0x8000, DurationMs = 60000, CRC32 = 0, RawHeader = []\<rparr>"

text \<open>
  Decompressed data without a host record: four bytes, the game name \<open>0x01\<close>, the
  separator, an empty encoded string and the twelve bytes of player count, game type and
  language; then a chat block from player 2 with the text \<open>hi\<close> in mode 0, and the byte
  \<open>0xAB\<close>, which is no block ID.
\<close>

abbreviation (input) unknownBlockBytes :: "byte list" where
  "unknownBlockBytes \<equiv>
     [0, 0, 0, 0,  1, 0,  0,  0,  0, 0, 0, 0, 0, 0, 0, 0, 0, 0, 0, 0,
      0x20, 2, 3, 0, 0x20, 0, 0, 0, 0, 0x68, 0x69, 0,
      0xAB]"

definition unknownBlockData :: "byte list" where
  "unknownBlockData = unknownBlockBytes"

lemma unknownBlockData_eval:
  "unknownBlockData ! 0 = unknownBlockBytes ! 0"
  "unknownBlockData ! numeral k = unknownBlockBytes ! numeral k"
  "length unknownBlockData = 33"
  "drop (numeral k) unknownBlockData = drop (numeral k) unknownBlockBytes"
  by (simp_all add: unknownBlockData_def)

section \<open>The strict flag\<close>

lemma blockStep_strict:
  "blockStep strict version data spare playerNames st = blockStep False version data spare playerNames st"
  by (simp add: blockStep_def)

lemma walk_strict_False:
  "walk strict version data spare playerNames st = walk False version data spare playerNames st"
proof (induction strict version data spare playerNames st rule: walk.induct)
  case (1 strict version data spare playerNames st)
  show ?case
  proof (cases "w_offset st < length data")
    case True
    show ?thesis
    proof (cases "blockStep strict version data spare playerNames st")
      case (Inl e)
      with True show ?thesis
        using blockStep_strict [of strict version data spare playerNames st]
        by (simp add: walk.simps [of _ version data spare playerNames st])
    next
      case (Inr st')
      with True "1.IH" [OF True Inr] show ?thesis
        using blockStep_strict [of strict version data spare playerNames st]
        by (simp add: walk.simps [of _ version data spare playerNames st])
    qed
  next
    case False
    then show ?thesis
      by (simp add: walk.simps [of _ version data spare playerNames st])
  qed
qed

lemma walk_strict:
  "walk True version data spare playerNames st = walk False version data spare playerNames st"
  by (rule walk_strict_False)

text \<open>The strict flag has no effect on \<open>parseGameData\<close>.\<close>

lemma parseGameData_strict:
  "parseGameData True header data spare = parseGameData False header data spare"
  unfolding parseGameData_def walk_strict by (rule refl)

text \<open>
  Claim C2 at the data above, with the strict flag set: the walker passes the byte
  \<open>0xAB\<close> and the parse returns a replay, which holds the chat message in front of that
  byte. The claim asks for the error \<open>Unknown\<close>.
\<close>

theorem parseGameData_strict_unknown_block:
  "map_sum id (\<lambda>replay. map (\<lambda>c. (PlayerName c, Message c)) (ChatMessages replay))
     (parseGameData True tftHeader unknownBlockData []) = Inr [(''Player 2'', ''hi'')]"
  by (simp add: eval_defs tftHeader_def unknownBlockData_eval)

section \<open>Computer slots\<close>

text \<open>
  Decompressed data with the host record of player 1, \<open>a\<close>, the game name \<open>g\<close>, and a
  game-start record of two slots: a used slot of player 1 and a used computer slot with
  player ID 2, team 1, colour 1, race Orc and handicap 100.
\<close>

abbreviation (input) computerSlotBytes :: "byte list" where
  "computerSlotBytes \<equiv>
     [0, 0, 0, 0,  0, 1, 0x61, 0, 1, 0,  0x67, 0,  0,  0,
      0, 0, 0, 0, 0, 0, 0, 0, 0, 0, 0, 0,
      0x19, 0x18, 0, 2,
      1, 100, 2, 0, 0, 0, 1, 0, 100,
      2, 100, 2, 1, 1, 1, 2, 1, 100,
      0, 0, 0, 0,  0,  2]"

definition computerSlotData :: "byte list" where
  "computerSlotData = computerSlotBytes"

lemma computerSlotData_eval:
  "computerSlotData ! 0 = computerSlotBytes ! 0"
  "computerSlotData ! numeral k = computerSlotBytes ! numeral k"
  "length computerSlotData = 54"
  "drop (numeral k) computerSlotData = drop (numeral k) computerSlotBytes"
  by (simp_all add: computerSlotData_def)

text \<open>
  Claim C1 at the data above: the game-start record holds a used computer slot with
  player ID 2, and the player list of the replay holds the host alone, no player named
  \<open>Computer 2\<close>. \<open>applySlotInfoToPlayers\<close> appends the computer player to its own slice
  (the second component below), which the caller does not see.
\<close>

theorem parseGameData_computer_slot_lost:
  "map (\<lambda>slot. (slotPlayerID slot, slotStatus slot = SlotUsed, slotIsComputer slot))
     (fst (parseGameStartRecord computerSlotData 26 26)) = [(1, True, False), (2, True, True)]
   \<and> map_sum id (\<lambda>replay. map Name (Players replay))
       (parseGameData False tftHeader computerSlotData []) = Inr [''a'']
   \<and> map Name (snd (applySlotInfoToPlayers [zeroPlayer\<lparr>ID := 1, Name := ''a''\<rparr>]
                      (fst (parseGameStartRecord computerSlotData 26 26)) 26))
       = [''a'', ''Computer 2'']"
  by (simp add: eval_defs tftHeader_def computerSlotData_eval)

section \<open>Action counts\<close>


lemma map_updateFirst:
  assumes "\<And>x. g (f x) = g x"
  shows "map g (updateFirst P f xs) = map g xs"
  using assms by (induction xs) auto

lemma updateFirst_nth_first:
  assumes "i < length xs" "P (xs ! i)" "\<forall>j<i. \<not> P (xs ! j)"
  shows "updateFirst P f xs = xs[i := f (xs ! i)]"
  using assms
proof (induction xs arbitrary: i)
  case Nil
  then show ?case by simp
next
  case (Cons x xs)
  show ?case
  proof (cases i)
    case 0
    with Cons.prems show ?thesis by simp
  next
    case (Suc k)
    with Cons.prems have "\<not> P x" by auto
    moreover have "updateFirst P f xs = xs[k := f (xs ! k)]"
      using Cons.prems Suc by (intro Cons.IH) auto
    ultimately show ?thesis using Suc by simp
  qed
qed

lemma updateFirst_other:
  assumes "i < length xs" "\<not> P (xs ! i)"
  shows "updateFirst P f xs ! i = xs ! i"
  using assms
proof (induction xs arbitrary: i)
  case Nil
  then show ?case by simp
next
  case (Cons x xs)
  then show ?case by (cases i) auto
qed

text \<open>The step of \<open>applyCmdActions\<close> on the players: the count of one player ID goes up.\<close>

definition countAction :: "byte \<Rightarrow> PlayerInfo list \<Rightarrow> PlayerInfo list" where
  "countAction playerID players =
     updateFirst (\<lambda>player. ID player = playerID)
       (\<lambda>player. player\<lparr>ActionCount := ActionCount player + 1\<rparr>) players"

lemma countAction_ids: "map ID (countAction playerID players) = map ID players"
  unfolding countAction_def by (rule map_updateFirst) simp

lemma countAction_count:
  assumes "i < length players" "\<forall>j<i. ID (players ! j) \<noteq> ID (players ! i)"
  shows "ActionCount (countAction playerID players ! i)
           = ActionCount (players ! i) + (if playerID = ID (players ! i) then 1 else 0)"
proof (cases "playerID = ID (players ! i)")
  case True
  with assms have "countAction playerID players
                     = players[i := (players ! i)\<lparr>ActionCount := ActionCount (players ! i) + 1\<rparr>]"
    unfolding countAction_def by (intro updateFirst_nth_first) auto
  with assms(1) True show ?thesis by simp
next
  case False
  with assms(1) have "countAction playerID players ! i = players ! i"
    unfolding countAction_def by (intro updateFirst_other) auto
  with False show ?thesis by simp
qed

lemma applyCmdActions_count:
  assumes "i < length players" "\<forall>j<i. ID (players ! j) \<noteq> ID (players ! i)"
  shows "ActionCount (fst (applyCmdActions t cmdActions players actions) ! i)
           = ActionCount (players ! i)
             + int (length (filter (\<lambda>(playerID, action). playerID = ID (players ! i)) cmdActions))"
  using assms
proof (induction cmdActions arbitrary: players actions)
  case Nil
  show ?case by simp
next
  case (Cons ca cmdActions)
  obtain playerID action where ca: "ca = (playerID, action)" by (cases ca)
  let ?players = "countAction playerID players"
  have ids: "map ID ?players = map ID players" by (rule countAction_ids)
  then have len: "length ?players = length players" by (metis length_map)
  have nth: "\<And>k. k < length players \<Longrightarrow> ID (?players ! k) = ID (players ! k)"
    using ids len by (metis nth_map)
  have i: "i < length ?players" using Cons.prems(1) len by simp
  have first: "\<forall>j<i. ID (?players ! j) \<noteq> ID (?players ! i)"
    using Cons.prems nth by auto
  have "ActionCount (fst (applyCmdActions t (ca # cmdActions) players actions) ! i)
          = ActionCount (fst (applyCmdActions t cmdActions ?players
                                (actions @ [action\<lparr>TimestampMs := t\<rparr>])) ! i)"
    by (simp add: ca countAction_def)
  also have "\<dots> = ActionCount (?players ! i)
                    + int (length (filter (\<lambda>(playerID, action). playerID = ID (?players ! i)) cmdActions))"
    by (rule Cons.IH [OF i first])
  finally show ?case
    using countAction_count [OF Cons.prems, of playerID] nth [OF Cons.prems(1)]
    by (simp add: ca)
qed










section \<open>The game clock and the timestamps of the actions\<close>

lemma applyCmdActions_actions:
  "snd (applyCmdActions t cmdActions players actions)
     = actions @ map (\<lambda>(playerID, action). action\<lparr>TimestampMs := t\<rparr>) cmdActions"
  by (induction cmdActions arbitrary: players actions) auto

text \<open>
  What the block at the offset adds to the clock: the time increment of a time-slot block
  that has its four bytes of header, and nothing for any other block.
\<close>

definition blockIncrement :: "byte list \<Rightarrow> WalkState \<Rightarrow> nat" where
  "blockIncrement data st =
     (let blockID = data ! w_offset st;
          offset = w_offset st + 1
      in if (blockID = BlockTimeSlot \<or> blockID = BlockTimeSlotOld) \<and> offset + 4 \<le> length data
         then unat (u16le data (offset + 2)) else 0)"

lemma blockStep_clock:
  assumes "blockStep strict version data spare playerNames st = Inr st'"
  shows "w_currentTimeMs st' = w_currentTimeMs st + of_nat (blockIncrement data st)"
  using assms
  by (auto simp: blockStep_def blockIncrement_def Let_def
        BlockLeaveGame_def BlockFirstStart_def BlockSecondStart_def BlockThirdStart_def
        BlockTimeSlot_def BlockTimeSlotOld_def BlockChat_def BlockChecksum_def BlockForcedEnd_def
        split: if_splits sum.splits prod.splits option.splits)

lemma applyCmdActions_actions_eq:
  assumes "applyCmdActions t cmdActions players actions = (players', actions')"
  shows "actions' = actions @ map (\<lambda>(playerID, action). action\<lparr>TimestampMs := t\<rparr>) cmdActions"
  using applyCmdActions_actions [of t cmdActions players actions] assms by simp

lemma blockStep_actions:
  assumes "blockStep strict version data spare playerNames st = Inr st'"
  shows "\<exists>new. w_actions st' = w_actions st @ new
               \<and> (\<forall>a\<in>set new. TimestampMs a = w_currentTimeMs st')"
  using assms
  by (auto simp: blockStep_def Let_def split: if_splits sum.splits prod.splits option.splits
           dest!: applyCmdActions_actions_eq)

text \<open>
  The sum of the time increments of the blocks that the walk passes from a state on,
  as a natural number: what the clock would gain if it could not wrap.
\<close>

function totalIncrement ::
  "bool \<Rightarrow> u32 \<Rightarrow> byte list \<Rightarrow> byte list \<Rightarrow> (byte \<rightharpoonup> string) \<Rightarrow> WalkState \<Rightarrow> nat" where
  "totalIncrement strict version data spare playerNames st =
     (if w_offset st < length data then
        (case blockStep strict version data spare playerNames st of
           Inl e \<Rightarrow> 0
         | Inr st' \<Rightarrow>
             blockIncrement data st + totalIncrement strict version data spare playerNames st')
      else 0)"
  by pat_completeness auto
termination
  apply (relation "measure (\<lambda>(strict, version, data, spare, playerNames, st). length data - w_offset st)")
   apply simp
  subgoal for strict version data spare playerNames st st'
    using blockStep_advances [of strict version data spare playerNames st st'] by simp
  done

declare totalIncrement.simps [simp del]

lemma sorted_all_equal:
  fixes c :: "'a::linorder"
  assumes "\<forall>x\<in>set xs. x = c"
  shows "sorted xs"
  using assms by (induction xs) auto

lemma walk_timestamps_sorted:
  assumes "walk strict version data spare playerNames st = Inr stf"
    and "unat (w_currentTimeMs st) + totalIncrement strict version data spare playerNames st < 2 ^ 32"
    and "sorted (map TimestampMs (w_actions st))"
    and "\<forall>a\<in>set (w_actions st). TimestampMs a \<le> w_currentTimeMs st"
  shows "sorted (map TimestampMs (w_actions stf))"
  using assms
proof (induction strict version data spare playerNames st rule: walk.induct)
  case (1 strict version data spare playerNames st)
  show ?case
  proof (cases "w_offset st < length data")
    case False
    with "1.prems"(1,3) show ?thesis
      by (simp add: walk.simps [of strict version data spare playerNames st])
  next
    case True
    with "1.prems"(1) obtain st' where
      step: "blockStep strict version data spare playerNames st = Inr st'"
      and rest: "walk strict version data spare playerNames st' = Inr stf"
      by (auto simp: walk.simps [of strict version data spare playerNames st] split: sum.splits)
    let ?inc = "blockIncrement data st"
    have total: "totalIncrement strict version data spare playerNames st
                   = ?inc + totalIncrement strict version data spare playerNames st'"
      using True step by (simp add: totalIncrement.simps [of strict version data spare playerNames st])
    have clock: "w_currentTimeMs st' = w_currentTimeMs st + of_nat ?inc"
      by (rule blockStep_clock [OF step])
    have small: "unat (w_currentTimeMs st) + ?inc < 2 ^ 32"
      using "1.prems"(2) total by simp
    then have un: "unat (w_currentTimeMs st') = unat (w_currentTimeMs st) + ?inc"
      unfolding clock by (simp add: unat_word_ariths unat_of_nat)
    then have le: "w_currentTimeMs st \<le> w_currentTimeMs st'"
      by (simp add: word_le_nat_alt)
    obtain new where new: "w_actions st' = w_actions st @ new"
      "\<forall>a\<in>set new. TimestampMs a = w_currentTimeMs st'"
      using blockStep_actions [OF step] by blast
    have a: "unat (w_currentTimeMs st') + totalIncrement strict version data spare playerNames st' < 2 ^ 32"
      using "1.prems"(2) total un by simp
    have b: "sorted (map TimestampMs (w_actions st'))"
    proof -
      have "sorted (map TimestampMs new)"
        using new(2) by (intro sorted_all_equal [of _ "w_currentTimeMs st'"]) auto
      with "1.prems"(3,4) new le show ?thesis
        by (auto simp: sorted_append)
    qed
    have c: "\<forall>a\<in>set (w_actions st'). TimestampMs a \<le> w_currentTimeMs st'"
      using "1.prems"(4) new le by auto
    show ?thesis
      by (rule "1.IH" [OF True step rest a b c])
  qed
qed

text \<open>The same sum for a whole parse, from the state in which the walk starts.\<close>

definition clockTotal :: "bool \<Rightarrow> ReplayHeader \<Rightarrow> byte list \<Rightarrow> byte list \<Rightarrow> nat" where
  "clockTotal strict header data spare =
     (case parseLobby data spare (Version header) of
        Inl e \<Rightarrow> 0
      | Inr lobby \<Rightarrow>
          totalIncrement strict (Version header) data spare (l_playerNames lobby) (startState lobby))"

text \<open>
  Claim C8, amended. For every parsed replay in which the time increments of the
  time-slot blocks sum to less than \<open>2 ^ 32\<close> milliseconds, so that the 32-bit game clock
  does not wrap, the action list has non-decreasing timestamps: the timestamp of the
  action at position \<open>i\<close> is at most the timestamp of the action at any later position \<open>j\<close>.
\<close>

theorem parseGameData_timestamps_monotone:
  assumes "parseGameData strict header data spare = Inr replay"
    and "clockTotal strict header data spare < 2 ^ 32"
  shows "\<forall>i j. i \<le> j \<and> j < length (Actions replay) \<longrightarrow>
           TimestampMs (Actions replay ! i) \<le> TimestampMs (Actions replay ! j)"
proof -
  from assms(1) obtain lobby st where
    lobby: "parseLobby data spare (Version header) = Inr lobby"
    and walk: "walk strict (Version header) data spare (l_playerNames lobby) (startState lobby) = Inr st"
    and actions: "Actions replay = w_actions st"
    by (auto simp: parseGameData_def Let_def split: sum.splits)
  have "sorted (map TimestampMs (w_actions st))"
    using walk assms(2) lobby
    by (intro walk_timestamps_sorted [OF walk]) (simp_all add: clockTotal_def startState_def)
  then show ?thesis
    unfolding actions by (auto simp: sorted_iff_nth_mono)
qed

lemma totalIncrement_eval:
  "\<not> w_offset st < length data \<Longrightarrow> totalIncrement strict version data spare playerNames st = 0"
  "w_offset st < length data \<Longrightarrow>
     totalIncrement strict version data spare playerNames st =
       (case blockStep strict version data spare playerNames st of
          Inl e \<Rightarrow> 0
        | Inr st' \<Rightarrow>
            blockIncrement data st + totalIncrement strict version data spare playerNames st')"
  by (subst totalIncrement.simps, simp)+

text \<open>
  Decompressed data without a host record, then a time slot of 1000 ms and a time slot of
  500 ms that each hold one frame of player 1 with the single action \<open>0x01\<close>, pause.
\<close>

abbreviation (input) twoSlotBytes :: "byte list" where
  "twoSlotBytes \<equiv>
     [0, 0, 0, 0,  1, 0,  0,  0,  0, 0, 0, 0, 0, 0, 0, 0, 0, 0, 0, 0,
      0x1F, 6, 0, 0xE8, 3,  1, 1, 0,  0x01,
      0x1F, 6, 0, 0xF4, 1,  1, 1, 0,  0x01]"

definition twoSlotData :: "byte list" where
  "twoSlotData = twoSlotBytes"

lemma twoSlotData_eval:
  "twoSlotData ! 0 = twoSlotBytes ! 0"
  "twoSlotData ! numeral k = twoSlotBytes ! numeral k"
  "length twoSlotData = 38"
  "drop (numeral k) twoSlotData = drop (numeral k) twoSlotBytes"
  by (simp_all add: twoSlotData_def)

text \<open>On this data the clock gains 1500 ms, and the timestamps are 1000 and 1500.\<close>

theorem parseGameData_timestamps_monotone_witness:
  "clockTotal False tftHeader twoSlotData [] < 2 ^ 32
   \<and> (\<exists>replay. parseGameData False tftHeader twoSlotData [] = Inr replay
         \<and> map TimestampMs (Actions replay) = [1000, 1500]
         \<and> (\<forall>i j. i \<le> j \<and> j < length (Actions replay) \<longrightarrow>
                TimestampMs (Actions replay ! i) \<le> TimestampMs (Actions replay ! j)))"
proof -
  have total: "clockTotal False tftHeader twoSlotData [] < 2 ^ 32"
    by (simp add: clockTotal_def totalIncrement_eval blockIncrement_def eval_defs tftHeader_def
          twoSlotData_eval)
  have "\<exists>replay. parseGameData False tftHeader twoSlotData [] = Inr replay
          \<and> map TimestampMs (Actions replay) = [1000, 1500]"
    by (simp add: eval_defs tftHeader_def twoSlotData_eval)
  then obtain replay where
    parse: "parseGameData False tftHeader twoSlotData [] = Inr replay"
    and stamps: "map TimestampMs (Actions replay) = [1000, 1500]"
    by (elim exE conjE)
  have "\<forall>i j. i \<le> j \<and> j < length (Actions replay) \<longrightarrow>
          TimestampMs (Actions replay ! i) \<le> TimestampMs (Actions replay ! j)"
    by (rule parseGameData_timestamps_monotone [OF parse total])
  with parse stamps have
    "\<exists>replay. parseGameData False tftHeader twoSlotData [] = Inr replay
       \<and> map TimestampMs (Actions replay) = [1000, 1500]
       \<and> (\<forall>i j. i \<le> j \<and> j < length (Actions replay) \<longrightarrow>
              TimestampMs (Actions replay ! i) \<le> TimestampMs (Actions replay ! j))"
    by (intro exI [of _ replay] conjI)
  with total show ?thesis
    by (rule conjI)
qed

text \<open>
  A time-slot block without command data: the length word is 2 and the time increment is
  \<open>0xFFFF\<close> ms.
\<close>

definition emptySlot :: "byte list" where
  "emptySlot = [0x1F, 2, 0, 0xFF, 0xFF]"

lemma emptySlot_nth:
  "(pre @ emptySlot @ rest) ! length pre = 0x1F"
  "(pre @ emptySlot @ rest) ! Suc (length pre) = 2"
  "(pre @ emptySlot @ rest) ! Suc (Suc (length pre)) = 0"
  "(pre @ emptySlot @ rest) ! Suc (Suc (Suc (length pre))) = 0xFF"
  "(pre @ emptySlot @ rest) ! Suc (Suc (Suc (Suc (length pre)))) = 0xFF"
  by (simp_all add: emptySlot_def nth_append)

lemma blockStep_emptySlot:
  assumes "w_offset st = length pre"
  shows "blockStep strict version (pre @ emptySlot @ rest) spare playerNames st
           = Inr (st\<lparr>w_offset := length pre + 5,
                     w_currentTimeMs := w_currentTimeMs st + 0xFFFF\<rparr>)"
proof -
  have len: "length emptySlot = 5"
    by (simp add: emptySlot_def)
  show ?thesis
    unfolding blockStep_def Let_def assms u16le_def
    by (simp add: BlockLeaveGame_def BlockFirstStart_def BlockSecondStart_def BlockThirdStart_def
          BlockTimeSlot_def BlockTimeSlotOld_def emptySlot_nth len)
qed

text \<open>The walk over \<open>n\<close> such blocks in a row: the clock gains \<open>n\<close> times \<open>0xFFFF\<close>.\<close>

lemma walk_emptySlots:
  "walk strict version (pre @ concat (replicate n emptySlot) @ rest) spare playerNames
     \<lparr>w_offset = length pre, w_currentTimeMs = c, w_players = ps, w_chatMessages = cs,
      w_actions = as\<rparr>
   = walk strict version (pre @ concat (replicate n emptySlot) @ rest) spare playerNames
       \<lparr>w_offset = length pre + 5 * n, w_currentTimeMs = c + 0xFFFF * of_nat n, w_players = ps,
        w_chatMessages = cs, w_actions = as\<rparr>"
proof (induction n arbitrary: pre c)
  case 0
  show ?case by simp
next
  case (Suc n)
  let ?st = "\<lparr>w_offset = length pre, w_currentTimeMs = c, w_players = ps, w_chatMessages = cs,
              w_actions = as\<rparr>"
  let ?rest = "concat (replicate n emptySlot) @ rest"
  have data: "pre @ concat (replicate (Suc n) emptySlot) @ rest = pre @ emptySlot @ ?rest"
    by simp
  have data': "pre @ emptySlot @ ?rest = (pre @ emptySlot) @ concat (replicate n emptySlot) @ rest"
    by simp
  have len: "length emptySlot = 5"
    by (simp add: emptySlot_def)
  have step: "blockStep strict version (pre @ emptySlot @ ?rest) spare playerNames ?st
                = Inr \<lparr>w_offset = length (pre @ emptySlot), w_currentTimeMs = c + 0xFFFF,
                       w_players = ps, w_chatMessages = cs, w_actions = as\<rparr>"
    using blockStep_emptySlot [of ?st pre strict version ?rest spare playerNames]
    by (simp add: len)
  have "walk strict version (pre @ emptySlot @ ?rest) spare playerNames ?st
          = walk strict version (pre @ emptySlot @ ?rest) spare playerNames
              \<lparr>w_offset = length (pre @ emptySlot), w_currentTimeMs = c + 0xFFFF,
               w_players = ps, w_chatMessages = cs, w_actions = as\<rparr>"
    by (subst walk.simps) (simp add: step len)
  also have "\<dots> = walk strict version (pre @ emptySlot @ ?rest) spare playerNames
              \<lparr>w_offset = length (pre @ emptySlot) + 5 * n,
               w_currentTimeMs = c + 0xFFFF + 0xFFFF * of_nat n,
               w_players = ps, w_chatMessages = cs, w_actions = as\<rparr>"
    unfolding data' by (rule Suc.IH)
  finally show ?case
    unfolding data by (simp add: len algebra_simps)
qed

text \<open>
  Decompressed data without a host record and without a game-start record (twenty bytes,
  as in \<open>unknownBlockData\<close>), then 65536 time slots of \<open>0xFFFF\<close> ms without commands,
  then a time slot of \<open>0xFFFF\<close> ms and a time slot of 1 ms that each hold one frame of
  player 1 with the single action \<open>0x01\<close>, pause.
\<close>

abbreviation (input) noHostLobbyBytes :: "byte list" where
  "noHostLobbyBytes \<equiv> [0, 0, 0, 0,  1, 0,  0,  0,  0, 0, 0, 0, 0, 0, 0, 0, 0, 0, 0, 0]"

definition noHostLobby :: "byte list" where
  "noHostLobby = noHostLobbyBytes"

abbreviation (input) wrapTailBytes :: "byte list" where
  "wrapTailBytes \<equiv>
     [0x1F, 6, 0, 0xFF, 0xFF,  1, 1, 0,  0x01,
      0x1F, 6, 0, 1, 0,  1, 1, 0,  0x01]"

definition wrapTail :: "byte list" where
  "wrapTail = wrapTailBytes"

definition clockWrapData :: "byte list" where
  "clockWrapData = noHostLobby @ concat (replicate 65536 emptySlot) @ wrapTail"

lemma length_emptySlots: "length (concat (replicate n emptySlot)) = 5 * n"
  by (induction n) (simp_all add: emptySlot_def)

lemma length_noHostLobby: "length noHostLobby = 20"
  by (simp add: noHostLobby_def)

lemma clockWrapData_nth:
  "i < 20 \<Longrightarrow> clockWrapData ! i = noHostLobby ! i"
  "327700 \<le> i \<Longrightarrow> clockWrapData ! i = wrapTail ! (i - 327700)"
  by (auto simp: clockWrapData_def nth_append length_emptySlots length_noHostLobby)

lemma clockWrapData_eval:
  "length clockWrapData = 327718"
  "clockWrapData ! 0 = 0"
  "numeral k < (20::nat) \<Longrightarrow> clockWrapData ! numeral k = noHostLobbyBytes ! numeral k"
  "clockWrapData ! 20 = 0x1F"
  "327700 \<le> (numeral k::nat) \<Longrightarrow>
     clockWrapData ! numeral k = wrapTailBytes ! (numeral k - 327700)"
proof -
  note l = length_noHostLobby
  show "length clockWrapData = 327718"
    by (simp add: clockWrapData_def l wrapTail_def length_emptySlots)
  show "clockWrapData ! 0 = 0"
    by (simp add: clockWrapData_def noHostLobby_def)
  show "clockWrapData ! numeral k = noHostLobbyBytes ! numeral k" if "numeral k < (20::nat)"
    using clockWrapData_nth(1) [OF that] by (simp only: noHostLobby_def)
  have first: "(concat (replicate n emptySlot) @ rest) ! 0 = 0x1F" if "0 < n" for n rest
    using that by (cases n) (simp_all add: emptySlot_def)
  have "clockWrapData ! 20 = (concat (replicate 65536 emptySlot) @ wrapTail) ! 0"
    unfolding clockWrapData_def by (simp add: nth_append l)
  then show "clockWrapData ! 20 = 0x1F"
    by (simp add: first)
  show "clockWrapData ! numeral k = wrapTailBytes ! (numeral k - 327700)"
    if "327700 \<le> (numeral k::nat)"
    using clockWrapData_nth(2) [OF that] by (simp only: wrapTail_def)
qed

lemma clockWrapData_no_game_start: "isValidGameStartRecord clockWrapData k = False"
proof -
  have "set (concat (replicate n emptySlot)) \<subseteq> set emptySlot" for n
    by (induction n) auto
  then have "BlockGameStart \<notin> set clockWrapData"
    unfolding clockWrapData_def noHostLobby_def wrapTail_def
    by (auto simp: BlockGameStart_def emptySlot_def)
  then have "k < length clockWrapData \<Longrightarrow> clockWrapData ! k \<noteq> BlockGameStart"
    using nth_mem by metis
  then show ?thesis
    by (auto simp: isValidGameStartRecord_def)
qed

lemma parseLobby_clockWrapData:
  "map_sum id (\<lambda>lobby. (l_playerNames lobby, l_players lobby, l_offset lobby))
     (parseLobby clockWrapData [] 26) = Inr (Map.empty, [], 20)"
  unfolding parseLobby_def
  by (simp add: clockWrapData_eval clockWrapData_no_game_start parsePlayerRecord_def scanNul_eval
        goslice_def decodeEncodedString_def decodeLoop_eval decodeGroup_eval
        parseAdditionalPlayers_eval RecordHost_def RecordAdditionalPlayer_def BlockGameStart_def
        Let_def)

lemma walk_clockWrapData:
  "map_sum id (\<lambda>st. map TimestampMs (w_actions st))
     (walk False 26 clockWrapData [] Map.empty
        \<lparr>w_offset = 20, w_currentTimeMs = 0, w_players = [], w_chatMessages = [], w_actions = []\<rparr>)
   = Inr [0xFFFFFFFF, 0]"
proof -
  have "walk False 26 clockWrapData [] Map.empty
          \<lparr>w_offset = 20, w_currentTimeMs = 0, w_players = [], w_chatMessages = [], w_actions = []\<rparr>
        = walk False 26 clockWrapData [] Map.empty
            \<lparr>w_offset = 327700, w_currentTimeMs = 0xFFFF0000, w_players = [],
             w_chatMessages = [], w_actions = []\<rparr>"
    using walk_emptySlots [of False 26 noHostLobby 65536 wrapTail "[]" Map.empty 0 "[]" "[]" "[]"]
    by (simp add: clockWrapData_def length_noHostLobby)
  then show ?thesis
    by (simp add: eval_defs clockWrapData_eval)
qed

text \<open>
  Claim C8 as stated fails: after 65536 time slots of \<open>0xFFFF\<close> ms the clock is at
  \<open>0xFFFF0000\<close>; the next time slot brings it to \<open>0xFFFFFFFF\<close>, the timestamp of
  the first action, and the slot after that wraps it to 0, the timestamp of the second.
\<close>

theorem parseGameData_clock_wraps_counterexample:
  "map_sum id (\<lambda>replay. map TimestampMs (Actions replay))
     (parseGameData False tftHeader clockWrapData [])
   = Inr [0xFFFFFFFF, 0]
   \<and> \<not> (0xFFFFFFFF :: u32) \<le> 0"
proof -
  obtain lobby where lobby: "parseLobby clockWrapData [] 26 = Inr lobby"
    and l: "l_playerNames lobby = Map.empty" "l_players lobby = []" "l_offset lobby = 20"
    using parseLobby_clockWrapData by (cases "parseLobby clockWrapData [] 26") auto
  show ?thesis
    using walk_clockWrapData
    by (cases "walk False 26 clockWrapData [] Map.empty
                 \<lparr>w_offset = 20, w_currentTimeMs = 0, w_players = [], w_chatMessages = [],
                  w_actions = []\<rparr>")
       (simp_all add: parseGameData_def tftHeader_def lobby l startState_def Let_def)
qed

end
